theory Spec2Isabelle
  imports Complex_Main "HOL-Library.Log_Nat"
begin

section \<open>Strings and the string built-ins the component calls\<close>

text \<open>
  The knowledge-base viewer (\<^verbatim>\<open>src/components/MemoryStatus.tsx\<close>) works on JavaScript
  strings. They are modelled as \<^typ>\<open>string\<close>, one \<^typ>\<open>char\<close> per code unit, so the
  model covers the code units below 256. \<^verbatim>\<open>toUpperCase\<close> maps \<^verbatim>\<open>a\<close>..\<^verbatim>\<open>z\<close> to
  \<^verbatim>\<open>A\<close>..\<^verbatim>\<open>Z\<close>; the model leaves every other character alone, which is exact
  below 128. The white space that \<^verbatim>\<open>trim\<close> strips is, below 256, TAB, LF, VT, FF, CR,
  SPACE and the no-break space U+00A0.
\<close>

definition upper_char :: "char \<Rightarrow> char" where
  "upper_char c =
     (case map_of (zip ''abcdefghijklmnopqrstuvwxyz'' ''ABCDEFGHIJKLMNOPQRSTUVWXYZ'') c of
        Some u \<Rightarrow> u
      | None \<Rightarrow> c)"

definition toUpperCase :: "string \<Rightarrow> string" where
  "toUpperCase s = map upper_char s"

definition is_white_space :: "char \<Rightarrow> bool" where
  "is_white_space c =
     (c = CHR 0x09 \<or> c = CHR 0x0A \<or> c = CHR 0x0B \<or> c = CHR 0x0C \<or> c = CHR 0x0D \<or> c = CHR 0x20
      \<or> c = CHR 0xA0)"

definition trim :: "string \<Rightarrow> string" where
  "trim s = rev (dropWhile is_white_space (rev (dropWhile is_white_space s)))"

text \<open>\<^verbatim>\<open>s.startsWith(p)\<close>\<close>

definition startsWith :: "string \<Rightarrow> string \<Rightarrow> bool" where
  "startsWith s p = (take (length p) s = p)"

text \<open>\<^verbatim>\<open>s.includes(p)\<close> on strings: \<open>p\<close> occurs in \<open>s\<close> at some position.\<close>

fun str_includes :: "string \<Rightarrow> string \<Rightarrow> bool" where
  "str_includes [] p = (p = [])"
| "str_includes (c # cs) p = (startsWith (c # cs) p \<or> str_includes cs p)"

text \<open>\<^verbatim>\<open>s.split(sep)\<close> for a one-character separator: never the empty list.\<close>

fun split_on :: "char \<Rightarrow> string \<Rightarrow> string list" where
  "split_on sep [] = [[]]"
| "split_on sep (c # cs) =
     (if c = sep then [] # split_on sep cs
      else (case split_on sep cs of
              [] \<Rightarrow> [[c]]
            | w # ws \<Rightarrow> (c # w) # ws))"

section \<open>The geometric domain mapper\<close>

text \<open>
  \<^verbatim>\<open>categorize(id, name, tags)\<close>, lines 42--145, on the argument types its signature
  declares. The cascade is kept in the order of the source; \<^verbatim>\<open>combined.includes(x)\<close> on
  the array is membership, \<^verbatim>\<open>combined.some(p)\<close> is \<^const>\<open>list_ex\<close>.
\<close>

definition categorize :: "string \<Rightarrow> string \<Rightarrow> string list \<Rightarrow> string" where
  "categorize id' name tags =
    (let upperId = trim (toUpperCase id');
         combined = map (\<lambda>s. trim (toUpperCase s)) (tags @ [name])
     in
     if startsWith upperId ''LAW_'' then ''IMPERATIVE''
     else if ''SUBSTANCE'' \<in> set combined then ''SUBSTANCE''
     else if ''ORGANISM'' \<in> set combined then ''ORGANISM''
     else if ''ALGORITHM'' \<in> set combined then ''ALGORITHM''
     else if ''QUANTITY'' \<in> set combined then ''QUANTITY''
     else if ''MECHANISM'' \<in> set combined then ''MECHANISM''
     else if ''IMPERATIVE'' \<in> set combined then ''IMPERATIVE''
     else if ''ENTROPY'' \<in> set combined then ''ENTROPY''
     else if ''MEANING'' \<in> set combined then ''MEANING''
     else if list_ex (\<lambda>s. s = ''ENGLISH'' \<or> s = ''VOCABULARY'' \<or> str_includes s ''VOCAB'') combined
       then ''MEANING''
     else if list_ex (\<lambda>s. s = ''PHYSICS'' \<or> s = ''EARTH'' \<or> str_includes s ''EARTH_SCIENCE'') combined
       then ''MECHANISM''
     else if list_ex (\<lambda>s. s = ''MATH'' \<or> s = ''MATHEMATICS'') combined then ''QUANTITY''
     else if list_ex (\<lambda>s. s = ''CHEMISTRY'') combined then ''SUBSTANCE''
     else if list_ex (\<lambda>s. s = ''PSYCHOLOGY'' \<or> s = ''BIOLOGY'') combined then ''ORGANISM''
     else if list_ex (\<lambda>s. s = ''PYTHON'' \<or> s = ''CS'' \<or> s = ''COMPUTER SCIENCE'') combined
       then ''ALGORITHM''
     else if list_ex (\<lambda>s.
         str_includes s ''LAW'' \<or> str_includes s ''RULE'' \<or> str_includes s ''AXIOM'' \<or>
         str_includes s ''STANDARD'' \<or> str_includes s ''PRINCIPLE'' \<or> str_includes s ''REQ'' \<or>
         str_includes s ''PROTOCOL'' \<or> str_includes s ''COMMAND'') combined
       then ''IMPERATIVE''
     else if list_ex (\<lambda>s.
         str_includes s ''ELEMENT'' \<or> str_includes s ''PERIODIC'' \<or> str_includes s ''METAL'' \<or>
         str_includes s ''GAS'' \<or> str_includes s ''LIQUID'' \<or> str_includes s ''MATTER'' \<or>
         str_includes s ''ATOM'' \<or> str_includes s ''MOLECULE'' \<or> str_includes s ''CHEMICAL'' \<or>
         str_includes s ''MINERAL'' \<or> str_includes s ''PLASTIC'' \<or> str_includes s ''GRAPHENE'' \<or>
         startsWith s ''MAT_'' \<or> startsWith s ''ELEM_'') combined
       then ''SUBSTANCE''
     else if list_ex (\<lambda>s.
         str_includes s ''BIO'' \<or> str_includes s ''LIFE'' \<or> str_includes s ''CELL'' \<or>
         str_includes s ''DNA'' \<or> str_includes s ''ORGANIC'' \<or> str_includes s ''ANIMAL'' \<or>
         str_includes s ''PLANT'' \<or> str_includes s ''FUNGUS'' \<or> str_includes s ''HEALTH'' \<or>
         str_includes s ''NEURO'' \<or> str_includes s ''BODY'' \<or> str_includes s ''CANCER'') combined
       then ''ORGANISM''
     else if list_ex (\<lambda>s.
         str_includes s ''ALGO'' \<or> str_includes s ''CODE'' \<or> str_includes s ''LOGIC'' \<or>
         str_includes s ''COMPUTE'' \<or> str_includes s ''DATA'' \<or> str_includes s ''PROCESS'' \<or>
         str_includes s ''FUNCTION'' \<or> str_includes s ''NETWORK'' \<or> str_includes s ''SYSTEM'' \<or>
         str_includes s ''INFO'' \<or> str_includes s ''FRACTAL'') combined
       then ''ALGORITHM''
     else if list_ex (\<lambda>s.
         str_includes s ''NUM'' \<or> str_includes s ''CONST'' \<or> str_includes s ''UNIT'' \<or>
         str_includes s ''MEASURE'' \<or> str_includes s ''VALUE'' \<or> str_includes s ''RATIO'' \<or>
         str_includes s ''METRIC'' \<or> str_includes s ''COORDINATE'' \<or> str_includes s ''DIMENSION'' \<or>
         str_includes s ''GEOMETRY'' \<or> str_includes s ''SHAPE'' \<or> startsWith s ''BIN_'') combined
       then ''QUANTITY''
     else if list_ex (\<lambda>s.
         str_includes s ''MECH'' \<or> str_includes s ''PHYS'' \<or> str_includes s ''ENERGY'' \<or>
         str_includes s ''FORCE'' \<or> str_includes s ''MOTION'' \<or> str_includes s ''WAVE'' \<or>
         str_includes s ''PARTICLE'' \<or> str_includes s ''REACT'' \<or> str_includes s ''KINETIC'') combined
       then ''MECHANISM''
     else if list_ex (\<lambda>s.
         str_includes s ''CHAOS'' \<or> str_includes s ''VOID'' \<or> str_includes s ''NULL'' \<or>
         str_includes s ''ERROR'' \<or> str_includes s ''DECAY'' \<or> str_includes s ''NOISE'' \<or>
         str_includes s ''UNKNOWN'' \<or> str_includes s ''RANDOM'') combined
       then ''ENTROPY''
     else if list_ex (\<lambda>s.
         str_includes s ''WORD'' \<or> str_includes s ''TERM'' \<or> str_includes s ''SEMANTIC'' \<or>
         str_includes s ''CONCEPT'' \<or> str_includes s ''IDEA'' \<or> str_includes s ''SYMBOL'' \<or>
         str_includes s ''DEFINITION'' \<or> str_includes s ''LANG'') combined
       then ''MEANING''
     else ''UNCATEGORIZED'')"

text \<open>The eight domains in the order in which the explicit-tag rule tests them, and the
  nine labels.\<close>

definition domains :: "string list" where
  "domains = [''SUBSTANCE'', ''ORGANISM'', ''ALGORITHM'', ''QUANTITY'',
              ''MECHANISM'', ''IMPERATIVE'', ''ENTROPY'', ''MEANING'']"

definition labels :: "string list" where
  "labels = domains @ [''UNCATEGORIZED'']"

section \<open>JSON values and \<^verbatim>\<open>JSON.parse\<close>\<close>

text \<open>
  The values \<^verbatim>\<open>JSON.parse\<close> can return. A number carries the exact decimal value of its
  literal. An object carries its own properties in the order in which \<^verbatim>\<open>Object.values\<close>
  and \<^verbatim>\<open>Object.entries\<close> enumerate them.
\<close>

datatype jsval =
    JNull
  | JBool bool
  | JNum rat
  | JStr string
  | JArr "jsval list"
  | JObj "(string \<times> jsval) list"

text \<open>The two exceptions the component can meet: \<^verbatim>\<open>JSON.parse\<close> throws the first, a
  property read on \<^verbatim>\<open>null\<close>, a call of a method the value does not have, or spreading
  a value that is not iterable throws the second.\<close>

datatype js_error = SyntaxError | TypeError

subsection \<open>Tokens\<close>

datatype token =
    TLBrace | TRBrace | TLBrack | TRBrack | TColon | TComma
  | TStr string
  | TScalar jsval

datatype lexstate =
    LIdle
  | LWord string
  | LStr string
  | LEsc string
  | LUni string "nat list"

definition is_json_ws :: "char \<Rightarrow> bool" where
  "is_json_ws c = (c = CHR 0x20 \<or> c = CHR 0x09 \<or> c = CHR 0x0A \<or> c = CHR 0x0D)"

definition punct :: "char \<Rightarrow> token option" where
  "punct c =
     (if c = CHR ''{'' then Some TLBrace
      else if c = CHR ''}'' then Some TRBrace
      else if c = CHR ''['' then Some TLBrack
      else if c = CHR '']'' then Some TRBrack
      else if c = CHR '':'' then Some TColon
      else if c = CHR '','' then Some TComma
      else None)"

definition digit_val :: "char \<Rightarrow> nat option" where
  "digit_val c = map_of (zip ''0123456789'' [0 ..< 10]) c"

definition hex_val :: "char \<Rightarrow> nat option" where
  "hex_val c =
     map_of (zip ''0123456789abcdef'' [0 ..< 16] @ zip ''ABCDEF'' [10 ..< 16]) c"

definition is_digit :: "char \<Rightarrow> bool" where
  "is_digit c = (digit_val c \<noteq> None)"

definition int_of_digits :: "string \<Rightarrow> int" where
  "int_of_digits ds =
     foldl (\<lambda>a c. 10 * a + (case digit_val c of Some d \<Rightarrow> int d | None \<Rightarrow> 0)) 0 ds"

text \<open>
  The JSON number grammar:
  \<^verbatim>\<open>-? (0 | [1-9][0-9]*) (\.[0-9]+)? ([eE][+-]?[0-9]+)?\<close>.
\<close>

definition exponent_of :: "string \<Rightarrow> int option" where
  "exponent_of s =
     (case s of
        [] \<Rightarrow> Some 0
      | e # r \<Rightarrow>
          if e = CHR ''e'' \<or> e = CHR ''E'' then
            (let (neg, ds) =
               (case r of
                  [] \<Rightarrow> (False, [])
                | x # xs \<Rightarrow>
                    if x = CHR ''-'' then (True, xs)
                    else if x = CHR ''+'' then (False, xs)
                    else (False, r))
             in if ds \<noteq> [] \<and> list_all is_digit ds
                then Some (if neg then - int_of_digits ds else int_of_digits ds)
                else None)
          else None)"

definition number_of :: "string \<Rightarrow> rat option" where
  "number_of s =
     (let (neg, s1) =
            (case s of
               [] \<Rightarrow> (False, [])
             | x # xs \<Rightarrow> if x = CHR ''-'' then (True, xs) else (False, s));
          ip = takeWhile is_digit s1;
          s2 = dropWhile is_digit s1
      in if ip = [] \<or> (1 < length ip \<and> hd ip = CHR ''0'') then None
         else
           (let (fp, s3) =
              (case s2 of
                 [] \<Rightarrow> (Some [], [])
               | x # xs \<Rightarrow>
                   if x = CHR ''.'' then
                     (if takeWhile is_digit xs = [] then (None, [])
                      else (Some (takeWhile is_digit xs), dropWhile is_digit xs))
                   else (Some [], s2))
            in case fp of
                 None \<Rightarrow> None
               | Some fd \<Rightarrow>
                   (case exponent_of s3 of
                      None \<Rightarrow> None
                    | Some ex \<Rightarrow>
                        (let m = of_int (int_of_digits (ip @ fd)) :: rat;
                             sc = ex - int (length fd);
                             v = (if 0 \<le> sc then m * 10 ^ nat sc else m / 10 ^ nat (- sc))
                         in Some (if neg then - v else v)))))"

definition scalar_of :: "string \<Rightarrow> jsval option" where
  "scalar_of w =
     (if w = ''null'' then Some JNull
      else if w = ''true'' then Some (JBool True)
      else if w = ''false'' then Some (JBool False)
      else map_option JNum (number_of w))"

subsection \<open>The lexer, one character at a time\<close>

text \<open>
  Token lists and partial strings are accumulated in reverse. A literal or a number is the
  longest run of characters up to white space, punctuation or a quote; such a run is one
  token of the grammar or the text is not JSON. Inside a string a raw control character is
  an error, and \<^verbatim>\<open>\uXXXX\<close> gives the code unit of the four hexadecimal digits
  (a \<^typ>\<open>char\<close> holds it modulo 256; the model is exact for escapes of ASCII characters).
\<close>

definition lex_idle :: "token list \<Rightarrow> char \<Rightarrow> lexstate \<times> token list" where
  "lex_idle acc c =
     (if is_json_ws c then (LIdle, acc)
      else if c = CHR 0x22 then (LStr [], acc)
      else (case punct c of
              Some t \<Rightarrow> (LIdle, t # acc)
            | None \<Rightarrow> (LWord [c], acc)))"

definition unescape :: "char \<Rightarrow> char option" where
  "unescape c =
     (if c = CHR 0x22 then Some (CHR 0x22)
      else if c = CHR 0x5C then Some (CHR 0x5C)
      else if c = CHR ''/'' then Some (CHR ''/'')
      else if c = CHR ''b'' then Some (CHR 0x08)
      else if c = CHR ''f'' then Some (CHR 0x0C)
      else if c = CHR ''n'' then Some (CHR 0x0A)
      else if c = CHR ''r'' then Some (CHR 0x0D)
      else if c = CHR ''t'' then Some (CHR 0x09)
      else None)"

fun lex_step :: "lexstate \<Rightarrow> token list \<Rightarrow> char \<Rightarrow> (lexstate \<times> token list) option" where
  "lex_step LIdle acc c = Some (lex_idle acc c)"
| "lex_step (LWord w) acc c =
     (if is_json_ws c \<or> c = CHR 0x22 \<or> punct c \<noteq> None then
        (case scalar_of (rev w) of
           None \<Rightarrow> None
         | Some v \<Rightarrow> Some (lex_idle (TScalar v # acc) c))
      else Some (LWord (c # w), acc))"
| "lex_step (LStr s) acc c =
     (if c = CHR 0x22 then Some (LIdle, TStr (rev s) # acc)
      else if c = CHR 0x5C then Some (LEsc s, acc)
      else if (of_char c :: nat) < 32 then None
      else Some (LStr (c # s), acc))"
| "lex_step (LEsc s) acc c =
     (if c = CHR ''u'' then Some (LUni s [], acc)
      else (case unescape c of
              None \<Rightarrow> None
            | Some x \<Rightarrow> Some (LStr (x # s), acc)))"
| "lex_step (LUni s ds) acc c =
     (case hex_val c of
        None \<Rightarrow> None
      | Some d \<Rightarrow>
          if length ds = 3
          then Some (LStr (char_of (foldl (\<lambda>a x. 16 * a + x) 0 (ds @ [d])) # s), acc)
          else Some (LUni s (ds @ [d]), acc))"

fun lex_run :: "lexstate \<Rightarrow> token list \<Rightarrow> string \<Rightarrow> token list option" where
  "lex_run st acc [] =
     (case st of
        LIdle \<Rightarrow> Some (rev acc)
      | LWord w \<Rightarrow> map_option (\<lambda>v. rev (TScalar v # acc)) (scalar_of (rev w))
      | _ \<Rightarrow> None)"
| "lex_run st acc (c # cs) =
     (case lex_step st acc c of
        None \<Rightarrow> None
      | Some (st', acc') \<Rightarrow> lex_run st' acc' cs)"

subsection \<open>Own properties of a parsed object\<close>

text \<open>
  \<^verbatim>\<open>JSON.parse\<close> creates the members of an object in the order of the text; a repeated
  key keeps its first position and takes the last value. Own keys are enumerated with the
  array indices (canonical decimal numerals below \<open>2\<^sup>3\<^sup>2 - 1\<close>) first, in ascending order,
  then the other keys in the order of their creation.
\<close>

fun set_property :: "(string \<times> jsval) list \<Rightarrow> string \<Rightarrow> jsval \<Rightarrow> (string \<times> jsval) list" where
  "set_property [] k v = [(k, v)]"
| "set_property ((k', v') # ps) k v =
     (if k' = k then (k', v) # ps else (k', v') # set_property ps k v)"

definition array_index :: "string \<Rightarrow> int option" where
  "array_index k =
     (if k \<noteq> [] \<and> list_all is_digit k \<and> (k = ''0'' \<or> hd k \<noteq> CHR ''0'')
         \<and> int_of_digits k < 4294967295
      then Some (int_of_digits k) else None)"

definition own_properties :: "(string \<times> jsval) list \<Rightarrow> (string \<times> jsval) list" where
  "own_properties members =
     (let created = foldl (\<lambda>ps (k, v). set_property ps k v) [] members
      in sort_key (\<lambda>(k, v). case array_index k of Some i \<Rightarrow> i | None \<Rightarrow> 0)
           (filter (\<lambda>(k, v). array_index k \<noteq> None) created)
         @ filter (\<lambda>(k, v). array_index k = None) created)"

subsection \<open>The parser, one token at a time\<close>

text \<open>
  A pushdown recogniser of the JSON grammar. A frame is an array or an object under
  construction (its elements or members in reverse), or an object whose next key has been read.
\<close>

datatype frame =
    FArr "jsval list"
  | FObj "(string \<times> jsval) list"
  | FKey "(string \<times> jsval) list" string

datatype pmode = MValue | MFirst | MKeyFirst | MKey | MColon | MAfter | MDone jsval

fun deliver :: "jsval \<Rightarrow> frame list \<Rightarrow> (pmode \<times> frame list) option" where
  "deliver v [] = Some (MDone v, [])"
| "deliver v (FArr vs # r) = Some (MAfter, FArr (v # vs) # r)"
| "deliver v (FKey kvs k # r) = Some (MAfter, FObj ((k, v) # kvs) # r)"
| "deliver v (FObj kvs # r) = None"

fun begin_value :: "token \<Rightarrow> frame list \<Rightarrow> (pmode \<times> frame list) option" where
  "begin_value (TScalar v) st = deliver v st"
| "begin_value (TStr s) st = deliver (JStr s) st"
| "begin_value TLBrack st = Some (MFirst, FArr [] # st)"
| "begin_value TLBrace st = Some (MKeyFirst, FObj [] # st)"
| "begin_value _ st = None"

fun close_array :: "frame list \<Rightarrow> (pmode \<times> frame list) option" where
  "close_array (FArr vs # r) = deliver (JArr (rev vs)) r"
| "close_array _ = None"

fun close_object :: "frame list \<Rightarrow> (pmode \<times> frame list) option" where
  "close_object (FObj kvs # r) = deliver (JObj (own_properties (rev kvs))) r"
| "close_object _ = None"

fun begin_key :: "token \<Rightarrow> frame list \<Rightarrow> (pmode \<times> frame list) option" where
  "begin_key (TStr k) (FObj kvs # r) = Some (MColon, FKey kvs k # r)"
| "begin_key _ _ = None"

fun parse_step :: "pmode \<Rightarrow> frame list \<Rightarrow> token \<Rightarrow> (pmode \<times> frame list) option" where
  "parse_step MValue st t = begin_value t st"
| "parse_step MFirst st t = (if t = TRBrack then close_array st else begin_value t st)"
| "parse_step MKeyFirst st t = (if t = TRBrace then close_object st else begin_key t st)"
| "parse_step MKey st t = begin_key t st"
| "parse_step MColon st t = (if t = TColon then Some (MValue, st) else None)"
| "parse_step MAfter st t =
     (case st of
        FArr vs # r \<Rightarrow>
          if t = TComma then Some (MValue, st)
          else if t = TRBrack then close_array st
          else None
      | FObj kvs # r \<Rightarrow>
          if t = TComma then Some (MKey, st)
          else if t = TRBrace then close_object st
          else None
      | _ \<Rightarrow> None)"
| "parse_step (MDone v) st t = None"

fun parse_run :: "pmode \<Rightarrow> frame list \<Rightarrow> token list \<Rightarrow> jsval option" where
  "parse_run m st [] = (case m of MDone v \<Rightarrow> Some v | _ \<Rightarrow> None)"
| "parse_run m st (t # ts) =
     (case parse_step m st t of
        None \<Rightarrow> None
      | Some (m', st') \<Rightarrow> parse_run m' st' ts)"

text \<open>\<^verbatim>\<open>JSON.parse(text)\<close>: the value, or the \<^verbatim>\<open>SyntaxError\<close> it throws.\<close>

definition JSON_parse :: "string \<Rightarrow> js_error + jsval" where
  "JSON_parse text =
     (case lex_run LIdle [] text of
        None \<Rightarrow> Inl SyntaxError
      | Some ts \<Rightarrow>
          (case parse_run MValue [] ts of
             None \<Rightarrow> Inl SyntaxError
           | Some v \<Rightarrow> Inr v))"

section \<open>Operations of the runtime on parsed values\<close>

text \<open>
  Truthiness, as \<^verbatim>\<open>a || b\<close> and \<^verbatim>\<open>c ? x : y\<close> test it. A number is falsy when it
  is zero; the literal of a number is rounded to binary64 when it is read, and it rounds to
  zero exactly when its magnitude is at most \<open>2\<^sup>-\<^sup>1\<^sup>0\<^sup>7\<^sup>5\<close>.
\<close>

fun truthy :: "jsval \<Rightarrow> bool" where
  "truthy JNull = False"
| "truthy (JBool b) = b"
| "truthy (JNum q) = (1 / 2 ^ 1075 < \<bar>q\<bar>)"
| "truthy (JStr s) = (s \<noteq> [])"
| "truthy (JArr xs) = True"
| "truthy (JObj ps) = True"

text \<open>
  \<^verbatim>\<open>item.k\<close> for the property names the component reads (\<^verbatim>\<open>tags\<close>, \<^verbatim>\<open>ubp_id\<close>,
  \<^verbatim>\<open>id\<close>, \<^verbatim>\<open>name\<close>, \<^verbatim>\<open>description\<close>, \<^verbatim>\<open>fingerprint\<close>, \<^verbatim>\<open>nrci\<close>,
  \<^verbatim>\<open>nrci_score\<close>), none of which a prototype defines: reading one from \<^verbatim>\<open>null\<close> throws,
  an object gives its own property or \<^verbatim>\<open>undefined\<close> (\<^const>\<open>None\<close>), every other value gives
  \<^verbatim>\<open>undefined\<close>.
\<close>

fun get_prop :: "jsval \<Rightarrow> string \<Rightarrow> js_error + jsval option" where
  "get_prop JNull k = Inl TypeError"
| "get_prop (JObj ps) k = Inr (map_of ps k)"
| "get_prop _ k = Inr None"

text \<open>\<^verbatim>\<open>v || d\<close>\<close>

definition or_else :: "jsval option \<Rightarrow> jsval \<Rightarrow> jsval" where
  "or_else v d = (case v of None \<Rightarrow> d | Some x \<Rightarrow> if truthy x then x else d)"

text \<open>\<^verbatim>\<open>Object.values(v)\<close>: the characters of a string, nothing for a number or a
  boolean, and a \<^verbatim>\<open>TypeError\<close> for \<^verbatim>\<open>null\<close>.\<close>

fun Object_values :: "jsval \<Rightarrow> js_error + jsval list" where
  "Object_values JNull = Inl TypeError"
| "Object_values (JObj ps) = Inr (map snd ps)"
| "Object_values (JArr xs) = Inr xs"
| "Object_values (JStr s) = Inr (map (\<lambda>c. JStr [c]) s)"
| "Object_values _ = Inr []"

text \<open>Sequencing of steps that may throw.\<close>

definition on_ok :: "js_error + 'a \<Rightarrow> ('a \<Rightarrow> js_error + 'b) \<Rightarrow> js_error + 'b" where
  "on_ok r f = (case r of Inl e \<Rightarrow> Inl e | Inr x \<Rightarrow> f x)"

text \<open>
  The call \<^verbatim>\<open>categorize(id, name, tags)\<close> as the runtime executes it on values that came
  out of \<^verbatim>\<open>JSON.parse\<close>, where nothing enforces the declared types:
  \<^verbatim>\<open>id.toUpperCase()\<close> needs a string, \<^verbatim>\<open>[...tags, name]\<close> needs an iterable (an
  array, or a string, which spreads into its characters), and \<^verbatim>\<open>s.toUpperCase()\<close> needs
  every element and the name to be strings. Each failure is a \<^verbatim>\<open>TypeError\<close>.
\<close>

fun spread :: "jsval \<Rightarrow> js_error + jsval list" where
  "spread (JArr xs) = Inr xs"
| "spread (JStr s) = Inr (map (\<lambda>c. JStr [c]) s)"
| "spread _ = Inl TypeError"

fun the_strings :: "jsval list \<Rightarrow> js_error + string list" where
  "the_strings [] = Inr []"
| "the_strings (JStr s # vs) = on_ok (the_strings vs) (\<lambda>ss. Inr (s # ss))"
| "the_strings (_ # vs) = Inl TypeError"

definition categorize_call :: "jsval \<Rightarrow> jsval \<Rightarrow> jsval \<Rightarrow> js_error + string" where
  "categorize_call id' name tags =
     (case id' of
        JStr i \<Rightarrow>
          on_ok (spread tags) (\<lambda>ts.
          on_ok (the_strings (ts @ [name])) (\<lambda>ss.
            Inr (categorize i (last ss) (butlast ss))))
      | _ \<Rightarrow> Inl TypeError)"

section \<open>The knowledge-base parser\<close>

record ParsedEntry =
  id' :: jsval
  name :: jsval
  tags :: jsval
  fingerprint :: "jsval option"
  nrci :: "jsval option"
  raw :: string
  category :: string

record ParsedSystem =
  entries :: "ParsedEntry list"
  validJsonCount :: nat
  markdownCount :: nat

text \<open>
  One element of the structured shape, lines 152--164 and 189--201: the entry that is
  pushed, or the exception thrown before anything is pushed.
\<close>

definition entry_of_item :: "string \<Rightarrow> jsval \<Rightarrow> js_error + ParsedEntry" where
  "entry_of_item source item =
     on_ok (get_prop item ''tags'') (\<lambda>t.
     on_ok (get_prop item ''ubp_id'') (\<lambda>u.
     on_ok (get_prop item ''name'') (\<lambda>n.
     on_ok (get_prop item ''fingerprint'') (\<lambda>f.
     on_ok (get_prop item ''nrci'') (\<lambda>r.
       (let tags = or_else t (JArr []);
            id' = or_else u (JStr ''UNKNOWN'');
            name = or_else n (JStr ''Untitled'')
        in on_ok (categorize_call id' name tags) (\<lambda>c.
             Inr \<lparr>id' = id', name = name, tags = tags, fingerprint = f, nrci = r,
                  raw = source, category = c\<rparr>)))))))"

definition push_json :: "ParsedSystem \<Rightarrow> ParsedEntry \<Rightarrow> ParsedSystem" where
  "push_json st e = st\<lparr>entries := entries st @ [e], validJsonCount := validJsonCount st + 1\<rparr>"

definition push_markdown :: "ParsedSystem \<Rightarrow> ParsedEntry \<Rightarrow> ParsedSystem" where
  "push_markdown st e = st\<lparr>entries := entries st @ [e], markdownCount := markdownCount st + 1\<rparr>"

text \<open>
  \<^verbatim>\<open>list.forEach(item => ...)\<close> inside the \<^verbatim>\<open>try\<close> of line 148. An exception leaves
  the loop at once; what was pushed before it stays in \<^verbatim>\<open>entries\<close>, so the state comes
  back together with the exception, if any.
\<close>

fun forEach_items :: "jsval list \<Rightarrow> ParsedSystem \<Rightarrow> ParsedSystem \<times> js_error option" where
  "forEach_items [] st = (st, None)"
| "forEach_items (item # rest) st =
     (case entry_of_item ''JSON Object'' item of
        Inl e \<Rightarrow> (st, Some e)
      | Inr en \<Rightarrow> forEach_items rest (push_json st en))"

text \<open>The \<^verbatim>\<open>try\<close> block, lines 148--165.\<close>

definition try_structured :: "string \<Rightarrow> ParsedSystem \<Rightarrow> ParsedSystem \<times> js_error option" where
  "try_structured systemKb st =
     (case JSON_parse (if systemKb = [] then ''[]'' else systemKb) of
        Inl e \<Rightarrow> (st, Some e)
      | Inr json \<Rightarrow>
          (case (case json of JArr xs \<Rightarrow> Inr xs | _ \<Rightarrow> Object_values json) of
             Inl e \<Rightarrow> (st, Some e)
           | Inr items \<Rightarrow> forEach_items items st))"

subsection \<open>The two regular expressions of the line scan\<close>

text \<open>\<^verbatim>\<open>.\<close> matches every character but a line terminator.\<close>

definition is_line_terminator :: "char \<Rightarrow> bool" where
  "is_line_terminator c = (c = CHR 0x0A \<or> c = CHR 0x0D)"

text \<open>
  \<^verbatim>\<open>(.*?)\<close> followed by the rest of a pattern, by backtracking: the continuation \<open>k\<close> gets
  the group and the remaining input, and is tried on the shortest group first.
\<close>

fun lazy_dots :: "string \<Rightarrow> (string \<Rightarrow> string \<Rightarrow> 'a option) \<Rightarrow> string \<Rightarrow> 'a option" where
  "lazy_dots acc k [] = k (rev acc) []"
| "lazy_dots acc k (c # cs) =
     (case k (rev acc) (c # cs) of
        Some r \<Rightarrow> Some r
      | None \<Rightarrow> if is_line_terminator c then None else lazy_dots (c # acc) k cs)"

text \<open>
  \<^verbatim>\<open>line.match(/^\- \[(.*?)\] \*\*(.*?)\*\*: (.*)/)\<close>: the three groups. The last group
  is greedy and runs to the first line terminator or the end.
\<close>

definition match_entry_line :: "string \<Rightarrow> (string \<times> string \<times> string) option" where
  "match_entry_line line =
     (if startsWith line ''- [''
      then lazy_dots []
             (\<lambda>g1 r1.
                if startsWith r1 ''] **''
                then lazy_dots []
                       (\<lambda>g2 r2.
                          if startsWith r2 ''**: ''
                          then Some (g1, g2, takeWhile (\<lambda>c. \<not> is_line_terminator c) (drop 4 r2))
                          else None)
                       (drop 4 r1)
                else None)
             (drop 3 line)
      else None)"

text \<open>\<^verbatim>\<open>content.match(/Tags: (.*?)$/)\<close>: the group of the leftmost match; \<^verbatim>\<open>$\<close> is the
  end of the input.\<close>

fun match_tags :: "string \<Rightarrow> string option" where
  "match_tags [] = None"
| "match_tags (c # cs) =
     (case (if startsWith (c # cs) ''Tags: ''
            then lazy_dots [] (\<lambda>g r. if r = [] then Some g else None) (drop 6 (c # cs))
            else None) of
        Some g \<Rightarrow> Some g
      | None \<Rightarrow> match_tags cs)"

text \<open>\<^verbatim>\<open>s.replace(/,$/, '')\<close>\<close>

definition strip_trailing_comma :: "string \<Rightarrow> string" where
  "strip_trailing_comma s = (if s \<noteq> [] \<and> last s = CHR '','' then butlast s else s)"

subsection \<open>The line scan\<close>

text \<open>
  One line of the fallback, lines 170--203. The inner \<^verbatim>\<open>try\<close> of a brace line catches
  whatever \<^verbatim>\<open>JSON.parse\<close> or the construction of the entry throws, and the line is
  dropped. \<^verbatim>\<open>split\<close> never returns an empty array, so \<^verbatim>\<open>[0]\<close> is its first piece.
\<close>

definition scan_line :: "string \<Rightarrow> ParsedSystem \<Rightarrow> js_error + ParsedSystem" where
  "scan_line line st =
     (case match_entry_line line of
        Some (marker, ident, content) \<Rightarrow>
          (let tags = (case match_tags content of
                         Some t \<Rightarrow> map trim (split_on (CHR '','') t)
                       | None \<Rightarrow> []);
               name = (case split_on (CHR 0x0A) content of [] \<Rightarrow> [] | n # ns \<Rightarrow> n)
           in on_ok (categorize_call (JStr ident) (JStr name) (JArr (map JStr tags))) (\<lambda>c.
                Inr (push_markdown st
                  \<lparr>id' = JStr ident, name = JStr name, tags = JArr (map JStr tags),
                   fingerprint = None, nrci = None, raw = ''Markdown Line'', category = c\<rparr>)))
      | None \<Rightarrow>
          if startsWith (trim line) ''{'' then
            (case on_ok (JSON_parse (strip_trailing_comma (trim line))) (entry_of_item ''JSON Line'') of
               Inl e \<Rightarrow> Inr st
             | Inr en \<Rightarrow> Inr (push_json st en))
          else Inr st)"

fun forEach_lines :: "string list \<Rightarrow> ParsedSystem \<Rightarrow> js_error + ParsedSystem" where
  "forEach_lines [] st = Inr st"
| "forEach_lines (l # ls) st =
     (case scan_line l st of
        Inl e \<Rightarrow> Inl e
      | Inr st' \<Rightarrow> forEach_lines ls st')"

section \<open>Aggregation\<close>

subsection \<open>The arithmetic of the percentage\<close>

text \<open>
  \<^verbatim>\<open>((count / total) * 100).toFixed(1) + '%'\<close> is binary64 arithmetic. The model computes
  on the exact rational values that the doubles denote: each operation is the exact
  operation followed by rounding to the nearest double, ties to even. \<^verbatim>\<open>count\<close> and
  \<^verbatim>\<open>total\<close> are integers below \<open>2\<^sup>5\<^sup>3\<close> and hence exact doubles, and every value that
  occurs is zero or lies in the normal range of binary64, where a double is an integer
  significand of 53 bits times a power of two.

  \<open>exponent2 q\<close> is the \<open>e\<close> with \<open>2\<^sup>e \<le> q < 2\<^sup>e\<^sup>+\<^sup>1\<close> for a positive \<open>q\<close>, found from the bit
  lengths of numerator and denominator.
\<close>

definition exponent2 :: "rat \<Rightarrow> int" where
  "exponent2 q =
     (case quotient_of q of (a, b) \<Rightarrow>
        (let e0 = bitlen a - bitlen b in if 2 powi e0 \<le> q then e0 else e0 - 1))"

definition round_half_even :: "rat \<Rightarrow> int" where
  "round_half_even r =
     (let f = \<lfloor>r\<rfloor>; d = r - of_int f
      in if d < 1 / 2 then f else if 1 / 2 < d then f + 1 else if even f then f else f + 1)"

definition binary64 :: "rat \<Rightarrow> rat" where
  "binary64 q = (let u = 2 powi (exponent2 q - 52) in of_int (round_half_even (q / u)) * u)"

text \<open>
  \<^verbatim>\<open>x.toFixed(1)\<close> for \<open>0 \<le> x < 10\<^sup>2\<^sup>1\<close>: the integer \<open>n\<close> for which \<open>n / 10 - x\<close> is closest
  to zero, the larger one if there are two; its decimal digits, with a zero in front when
  there is only one; and a point before the last digit.
\<close>

definition digit_char :: "nat \<Rightarrow> char" where
  "digit_char d = ''0123456789'' ! d"

fun decimal :: "nat \<Rightarrow> string" where
  "decimal n = (if n < 10 then [digit_char n] else decimal (n div 10) @ [digit_char (n mod 10)])"

declare decimal.simps [simp del]

definition toFixed1 :: "rat \<Rightarrow> string" where
  "toFixed1 x =
     (let n = nat \<lfloor>10 * x + 1 / 2\<rfloor>;
          m = decimal n;
          m' = (if length m \<le> 1 then CHR ''0'' # m else m)
      in butlast m' @ ''.'' @ [last m'])"

text \<open>\<^verbatim>\<open>total > 0 ? ((count / total) * 100).toFixed(1) + '%' : '0%'\<close>\<close>

definition percentage :: "nat \<Rightarrow> nat \<Rightarrow> string" where
  "percentage c t =
     (if 0 < t then toFixed1 (binary64 (binary64 (of_nat c / of_nat t) * 100)) @ ''%''
      else ''0%'')"

subsection \<open>The statistics\<close>

text \<open>
  \<^verbatim>\<open>statsMap\<close> is an object used as a dictionary from category to count; its keys are
  labels, which are enumerated in the order of their creation.
\<close>

record CategoryStat =
  code :: string
  count :: nat
  description :: string
  percent :: string

text \<open>\<^verbatim>\<open>statsMap[k] = (statsMap[k] || 0) + 1\<close>\<close>

fun bump :: "(string \<times> nat) list \<Rightarrow> string \<Rightarrow> (string \<times> nat) list" where
  "bump [] k = [(k, 1)]"
| "bump ((k', n) # m) k = (if k' = k then (k', n + 1) # m else (k', n) # bump m k)"

definition statsMap :: "ParsedEntry list \<Rightarrow> (string \<times> nat) list" where
  "statsMap es = foldl (\<lambda>m e. bump m (category e)) [] es"

definition describe :: "string \<Rightarrow> string" where
  "describe c =
     (if c = ''SUBSTANCE'' then ''Stable Matter & Elements (Bit 12=1)''
      else if c = ''ORGANISM'' then ''Biological & Complex Systems''
      else if c = ''ALGORITHM'' then ''Logic, Code & Information''
      else if c = ''QUANTITY'' then ''Pure Magnitude & Constants (Bit 12=0)''
      else if c = ''MECHANISM'' then ''Physical Interactions & Reactions''
      else if c = ''IMPERATIVE'' then ''System Laws & Constraints''
      else if c = ''ENTROPY'' then ''Chaos, Void & Dissolution''
      else if c = ''MEANING'' then ''Semantic & Linguistic Value''
      else ''Unknown Domain'')"

text \<open>
  \<^verbatim>\<open>Object.entries(statsMap).map(...).sort((a, b) => b.count - a.count)\<close>, with
  \<^verbatim>\<open>total = entries.length\<close>: \<open>stat_of\<close> is the callback of \<^verbatim>\<open>map\<close>. The sort of the
  runtime is stable; with this comparator it orders by the key \<open>- count\<close>.
\<close>

fun stat_of :: "nat \<Rightarrow> string \<times> nat \<Rightarrow> CategoryStat" where
  "stat_of t (c, n) =
     \<lparr>code = c, count = n, description = describe c, percent = percentage n t\<rparr>"

definition categoryStats :: "ParsedEntry list \<Rightarrow> CategoryStat list" where
  "categoryStats es =
     sort_key (\<lambda>s. - int (count s)) (map (stat_of (length es)) (statsMap es))"

section \<open>The classifier\<close>

text \<open>
  The memoised computation of lines 36--237, which the specification calls
  \<^verbatim>\<open>classify\<close>: the \<^verbatim>\<open>try\<close> block, the \<^verbatim>\<open>catch\<close> block that scans the lines
  when anything was thrown, then the statistics. The result is \<^verbatim>\<open>parsedSystem\<close> and
  \<^verbatim>\<open>categoryStats\<close>, or an exception that leaves the computation.
\<close>

definition classify :: "string \<Rightarrow> js_error + ParsedSystem \<times> CategoryStat list" where
  "classify systemKb =
     on_ok
       (case try_structured systemKb \<lparr>entries = [], validJsonCount = 0, markdownCount = 0\<rparr> of
          (st, None) \<Rightarrow> Inr st
        | (st, Some e) \<Rightarrow> forEach_lines (split_on (CHR 0x0A) systemKb) st)
       (\<lambda>st. Inr (st, categoryStats (entries st)))"

section \<open>The belief view\<close>

text \<open>
  \<^verbatim>\<open>certainty\<close> is the text \<^verbatim>\<open>NRCI: \<close> followed by the rendering of a truthy
  \<^verbatim>\<open>nrci_score\<close>; the model keeps the score itself.
\<close>

record ParsedBelief =
  belief_id :: jsval
  belief_description :: jsval
  certainty :: "jsval option"

definition certainty_of :: "jsval option \<Rightarrow> jsval option" where
  "certainty_of s = (case s of None \<Rightarrow> None | Some v \<Rightarrow> if truthy v then Some v else None)"

text \<open>An element of the array format, lines 246--250.\<close>

definition belief_of_item :: "jsval \<Rightarrow> js_error + ParsedBelief" where
  "belief_of_item item =
     on_ok (get_prop item ''ubp_id'') (\<lambda>u.
     on_ok (get_prop item ''id'') (\<lambda>i.
     on_ok (get_prop item ''name'') (\<lambda>n.
     on_ok (get_prop item ''description'') (\<lambda>d.
     on_ok (get_prop item ''nrci_score'') (\<lambda>s.
       Inr \<lparr>belief_id = or_else u (or_else i (or_else n (JStr ''Unknown''))),
            belief_description = or_else d (or_else n (JStr ''No Description'')),
            certainty = certainty_of s\<rparr>)))))"

text \<open>A member of the dictionary format, lines 255--259.\<close>

definition belief_of_member :: "string \<times> jsval \<Rightarrow> js_error + ParsedBelief" where
  "belief_of_member kv =
     (case kv of (key, v) \<Rightarrow>
        on_ok (get_prop v ''name'') (\<lambda>n.
        on_ok (get_prop v ''description'') (\<lambda>d.
        on_ok (get_prop v ''nrci_score'') (\<lambda>s.
          Inr \<lparr>belief_id = JStr key,
               belief_description = or_else n (or_else d (JStr ''No Description'')),
               certainty = certainty_of s\<rparr>))))"

text \<open>\<^verbatim>\<open>forEach\<close> with a \<^verbatim>\<open>push\<close> per element: what was pushed when the loop ended
  or was left by an exception.\<close>

fun forEach_push :: "('a \<Rightarrow> js_error + 'b) \<Rightarrow> 'a list \<Rightarrow> 'b list \<Rightarrow> 'b list" where
  "forEach_push f [] acc = acc"
| "forEach_push f (x # xs) acc =
     (case f x of
        Inl e \<Rightarrow> acc
      | Inr y \<Rightarrow> forEach_push f xs (acc @ [y]))"

text \<open>Lines 239--264. The \<^verbatim>\<open>catch\<close> is empty and the list is returned after it.\<close>

definition parsedBeliefs :: "string \<Rightarrow> ParsedBelief list" where
  "parsedBeliefs beliefsKb =
     (case JSON_parse (if beliefsKb = [] then ''{}'' else beliefsKb) of
        Inl e \<Rightarrow> []
      | Inr json \<Rightarrow>
          (case json of
             JArr items \<Rightarrow> forEach_push belief_of_item items []
           | JObj members \<Rightarrow> forEach_push belief_of_member members []
           | _ \<Rightarrow> []))"

section \<open>Notions used to state the properties\<close>

text \<open>Every entry of a parse state carries one of the nine labels.\<close>

definition labelled :: "ParsedSystem \<Rightarrow> bool" where
  "labelled st = list_all (\<lambda>e. category e \<in> set labels) (entries st)"

text \<open>An element of the structured shape with the field \<open>k\<close> removed.\<close>

definition without :: "string \<Rightarrow> jsval \<Rightarrow> jsval" where
  "without k item =
     (case item of
        JObj ps \<Rightarrow> JObj (filter (\<lambda>(k', v). k' \<noteq> k) ps)
      | _ \<Rightarrow> item)"

text \<open>
  The reading of the belief view that the properties compare the code with: the field of a
  value that is not \<^verbatim>\<open>null\<close>, and the belief entry of an array element and of a
  dictionary member, each taking the first truthy field of its list, else the literal.
\<close>

definition field :: "jsval \<Rightarrow> string \<Rightarrow> jsval option" where
  "field v k = (case v of JObj ps \<Rightarrow> map_of ps k | _ \<Rightarrow> None)"

definition spec_belief_of_element :: "jsval \<Rightarrow> ParsedBelief" where
  "spec_belief_of_element item =
     \<lparr>belief_id = or_else (field item ''ubp_id'') (or_else (field item ''id'')
                    (or_else (field item ''name'') (JStr ''Unknown''))),
      belief_description = or_else (field item ''description'')
                    (or_else (field item ''name'') (JStr ''No Description'')),
      certainty = certainty_of (field item ''nrci_score'')\<rparr>"

definition spec_belief_of_member :: "string \<times> jsval \<Rightarrow> ParsedBelief" where
  "spec_belief_of_member kv =
     \<lparr>belief_id = JStr (fst kv),
      belief_description = or_else (field (snd kv) ''name'')
                    (or_else (field (snd kv) ''description'') (JStr ''No Description'')),
      certainty = certainty_of (field (snd kv) ''nrci_score'')\<rparr>"

text \<open>The number of tenths that a printed percentage shows: its digits, read as a numeral.\<close>

definition tenths_shown :: "string \<Rightarrow> int" where
  "tenths_shown s = int_of_digits (filter is_digit s)"

text \<open>
  The percentage as the specification words it, in tenths: \<open>100 * count / total\<close> rounded
  to one decimal place, a value half-way between two tenths going up.
\<close>

definition spec_percent_tenths :: "nat \<Rightarrow> nat \<Rightarrow> int" where
  "spec_percent_tenths c t = \<lfloor>10 * (100 * of_nat c / of_nat t :: rat) + 1 / 2\<rfloor>"

section \<open>Properties of the domain mapper\<close>

lemma startsWith_append: "startsWith s p \<longleftrightarrow> (\<exists>r. s = p @ r)"
  unfolding startsWith_def
  by (metis append_eq_conv_conj append_take_drop_id)

text \<open>Trimming keeps a prefix that neither starts nor ends with white space.\<close>

lemma trim_keeps_prefix:
  assumes "startsWith s p" and "p \<noteq> []"
    and "\<not> is_white_space (hd p)" and "\<not> is_white_space (last p)"
  shows "startsWith (trim s) p"
proof -
  from assms(1) obtain r where s: "s = p @ r"
    by (auto simp: startsWith_append)
  from assms(2,3) have head_ok: "dropWhile is_white_space (p @ r) = p @ r"
    by (cases p) auto
  from assms(2,4) have tail_ok: "dropWhile is_white_space (rev p) = rev p"
    by (cases p rule: rev_cases) auto
  show ?thesis
    unfolding trim_def s head_ok
    by (auto simp: dropWhile_append tail_ok startsWith_append)
qed

lemma if_mem: "a \<in> S \<Longrightarrow> b \<in> S \<Longrightarrow> (if c then a else b) \<in> S"
  by simp

lemma categorize_in_labels: "categorize i n ts \<in> set labels"
  unfolding categorize_def Let_def
  by (intro if_mem) (simp_all add: labels_def domains_def)

text \<open>
  Claim C1. An identifier whose upper-cased form starts with \<^verbatim>\<open>LAW_\<close> is classified
  \<^verbatim>\<open>IMPERATIVE\<close>, whatever the name and the tags are, explicit domain tags included.
  The same holds for the call on untyped values whenever it returns.
\<close>

theorem categorize_law_override:
  assumes "startsWith (toUpperCase i) ''LAW_''"
  shows "categorize i n ts = ''IMPERATIVE''
     \<and> (\<forall>c. categorize_call (JStr i) nv tv = Inr c \<longrightarrow> c = ''IMPERATIVE'')"
proof -
  have "startsWith (trim (toUpperCase i)) ''LAW_''"
    by (rule trim_keeps_prefix [OF assms]) (simp_all add: is_white_space_def)
  then have "categorize i n' ts' = ''IMPERATIVE''" for n' ts'
    by (simp add: categorize_def)
  then show ?thesis
    by (auto simp: categorize_call_def on_ok_def split: sum.splits)
qed

theorem categorize_law_override_witness:
  "startsWith (toUpperCase ''law_7'') ''LAW_''
   \<and> categorize ''law_7'' ''Test'' [''SUBSTANCE''] = ''IMPERATIVE''"
proof -
  have h: "startsWith (toUpperCase ''law_7'') ''LAW_''"
    by (simp add: startsWith_def toUpperCase_def upper_char_def)
  from categorize_law_override [OF h, of "''Test''" "[''SUBSTANCE'']", THEN conjunct1] h
  show ?thesis by simp
qed

text \<open>
  Claim C2, as stated, fails in two ways. With two domain names among the tags the result
  is the one tested first, not each of them: the tags \<^verbatim>\<open>ORGANISM\<close>, \<^verbatim>\<open>SUBSTANCE\<close> give
  \<^verbatim>\<open>SUBSTANCE\<close>. And the identifier is trimmed before the prefix test, so an identifier
  with a leading blank before \<^verbatim>\<open>law_\<close> does not start with \<^verbatim>\<open>LAW_\<close> and is
  \<^verbatim>\<open>IMPERATIVE\<close> all the same.
\<close>

theorem categorize_explicit_counterexample:
  "\<not> startsWith (toUpperCase ''X1'') ''LAW_''
   \<and> ''ORGANISM'' \<in> set (map toUpperCase ([''ORGANISM'', ''SUBSTANCE''] @ [''Test'']))
   \<and> categorize ''X1'' ''Test'' [''ORGANISM'', ''SUBSTANCE''] \<noteq> ''ORGANISM''
   \<and> \<not> startsWith (toUpperCase '' law_1'') ''LAW_''
   \<and> ''SUBSTANCE'' \<in> set (map toUpperCase ([''SUBSTANCE''] @ [''Test'']))
   \<and> categorize '' law_1'' ''Test'' [''SUBSTANCE''] \<noteq> ''SUBSTANCE''"
  by (simp add: categorize_def toUpperCase_def upper_char_def trim_def is_white_space_def
      startsWith_def)

text \<open>
  Claim C2, amended. When the identifier, upper-cased and trimmed, does not start with
  \<^verbatim>\<open>LAW_\<close>, and a domain name is among the upper-cased and trimmed tags and name, the
  result is the first domain name, in the order of \<^const>\<open>domains\<close>, that is among them.
\<close>

theorem categorize_explicit_first:
  assumes "\<not> startsWith (trim (toUpperCase i)) ''LAW_''"
    and "find (\<lambda>d. d \<in> set (map (\<lambda>s. trim (toUpperCase s)) (ts @ [n]))) domains = Some d"
  shows "categorize i n ts = d"
proof -
  define c where "c = map (\<lambda>s. trim (toUpperCase s)) (ts @ [n])"
  have cat: "categorize i n ts =
     (if ''SUBSTANCE'' \<in> set c then ''SUBSTANCE''
      else if ''ORGANISM'' \<in> set c then ''ORGANISM''
      else if ''ALGORITHM'' \<in> set c then ''ALGORITHM''
      else if ''QUANTITY'' \<in> set c then ''QUANTITY''
      else if ''MECHANISM'' \<in> set c then ''MECHANISM''
      else if ''IMPERATIVE'' \<in> set c then ''IMPERATIVE''
      else if ''ENTROPY'' \<in> set c then ''ENTROPY''
      else if ''MEANING'' \<in> set c then ''MEANING''
      else categorize i n ts)"
    using assms(1) unfolding categorize_def Let_def c_def[symmetric] by simp
  from assms(2) have f: "find (\<lambda>d. d \<in> set c) domains = Some d"
    by (simp only: c_def)
  show ?thesis
    using f unfolding domains_def
    by (subst cat) (simp split: if_splits)
qed

theorem categorize_explicit_first_witness:
  "\<not> startsWith (trim (toUpperCase ''X1'')) ''LAW_''
   \<and> find (\<lambda>d. d \<in> set (map (\<lambda>s. trim (toUpperCase s)) ([''organism'', '' Substance ''] @ [''Test''])))
        domains = Some ''SUBSTANCE''
   \<and> categorize ''X1'' ''Test'' [''organism'', '' Substance ''] = ''SUBSTANCE''"
proof -
  have h1: "\<not> startsWith (trim (toUpperCase ''X1'')) ''LAW_''"
    by (simp add: startsWith_def toUpperCase_def upper_char_def trim_def is_white_space_def)
  have h2: "find (\<lambda>d. d \<in> set (map (\<lambda>s. trim (toUpperCase s)) ([''organism'', '' Substance ''] @ [''Test''])))
        domains = Some ''SUBSTANCE''"
    by (simp add: domains_def toUpperCase_def upper_char_def trim_def is_white_space_def)
  from categorize_explicit_first [OF h1 h2] h1 h2 show ?thesis
    by blast
qed

section \<open>Properties of the parser\<close>

lemma the_strings_JStr: "the_strings (map JStr ts @ [JStr n]) = Inr (ts @ [n])"
  by (induction ts) (simp_all add: on_ok_def)

text \<open>On strings the call is the typed function and throws nothing.\<close>

lemma categorize_call_typed:
  "categorize_call (JStr i) (JStr n) (JArr (map JStr ts)) = Inr (categorize i n ts)"
  by (simp add: categorize_call_def on_ok_def the_strings_JStr)

lemma categorize_call_label: "categorize_call i n t = Inr c \<Longrightarrow> c \<in> set labels"
  unfolding categorize_call_def on_ok_def
  by (auto simp: categorize_in_labels split: jsval.splits sum.splits)

lemma entry_of_item_label: "entry_of_item src item = Inr en \<Longrightarrow> category en \<in> set labels"
  unfolding entry_of_item_def on_ok_def Let_def
  by (auto dest: categorize_call_label split: sum.splits)

subsection \<open>The line scan throws nothing\<close>

lemma scan_line_returns: "\<exists>st'. scan_line l st = Inr st'"
  unfolding scan_line_def Let_def
  by (auto simp: categorize_call_typed on_ok_def split: option.splits sum.splits prod.splits)

lemma forEach_lines_returns: "\<exists>st'. forEach_lines ls st = Inr st'"
proof (induction ls arbitrary: st)
  case Nil
  show ?case by simp
next
  case (Cons l ls)
  obtain st1 where "scan_line l st = Inr st1"
    using scan_line_returns by blast
  with Cons.IH [of st1] show ?case by simp
qed

lemma classify_returns: "\<exists>r. classify kb = Inr r"
proof -
  let ?s0 = "\<lparr>entries = [], validJsonCount = 0, markdownCount = 0\<rparr>"
  obtain st e where t: "try_structured kb ?s0 = (st, e)"
    by (cases "try_structured kb ?s0")
  show ?thesis
  proof (cases e)
    case None
    with t show ?thesis by (simp add: classify_def on_ok_def)
  next
    case (Some x)
    obtain st' where "forEach_lines (split_on (CHR 0x0A) kb) st = Inr st'"
      using forEach_lines_returns by blast
    with t Some show ?thesis by (simp add: classify_def on_ok_def)
  qed
qed

lemma classify_stats: "classify kb = Inr (st, stats) \<Longrightarrow> stats = categoryStats (entries st)"
  by (auto simp: classify_def on_ok_def split: sum.splits)

text \<open>
  Claim C3. The classifier lets no exception out: for every input it returns a result. On
  the empty input and on \<^verbatim>\<open>not json and no bullets\<close> the result has no entries and no
  statistics.
\<close>

theorem classify_never_throws:
  "(\<exists>r. classify kb = Inr r)
   \<and> classify '''' = Inr (\<lparr>entries = [], validJsonCount = 0, markdownCount = 0\<rparr>, [])
   \<and> classify ''not json and no bullets''
       = Inr (\<lparr>entries = [], validJsonCount = 0, markdownCount = 0\<rparr>, [])"
proof -
  have "classify '''' = Inr (\<lparr>entries = [], validJsonCount = 0, markdownCount = 0\<rparr>, [])"
    by code_simp
  moreover have "classify ''not json and no bullets''
       = Inr (\<lparr>entries = [], validJsonCount = 0, markdownCount = 0\<rparr>, [])"
    by code_simp
  ultimately show ?thesis
    using classify_returns [of kb] by blast
qed

theorem classify_never_throws_witness:
  \<open>\<exists>r. classify ''[{"ubp_id":7},null]'' = Inr r\<close>
  using classify_never_throws [of \<open>''[{"ubp_id":7},null]''\<close>] by blast

text \<open>
  Claim C4 fails on the code. The \<^verbatim>\<open>try\<close> block covers the loop over the elements as
  well as \<^verbatim>\<open>JSON.parse\<close>, and the \<^verbatim>\<open>catch\<close> block keeps what the loop had pushed. On
  the input below the whole text is valid JSON; the second element has a number for
  \<^verbatim>\<open>ubp_id\<close>, so \<^verbatim>\<open>id.toUpperCase()\<close> throws after the first element was pushed; the
  line scan then reads the first element again from its own line. The result holds the same
  object twice, once from each path.
\<close>

theorem classify_mixes_paths:
  \<open>JSON_parse ''[\<newline>{"ubp_id":"A","name":"x"},\<newline>{"ubp_id":7,"name":"y"}\<newline>]''
     = Inr (JArr [JObj [(''ubp_id'', JStr ''A''), (''name'', JStr ''x'')],
                  JObj [(''ubp_id'', JNum 7), (''name'', JStr ''y'')]])
   \<and> classify ''[\<newline>{"ubp_id":"A","name":"x"},\<newline>{"ubp_id":7,"name":"y"}\<newline>]''
     = Inr (\<lparr>entries =
              [\<lparr>id' = JStr ''A'', name = JStr ''x'', tags = JArr [],
                fingerprint = None, nrci = None, raw = ''JSON Object'',
                category = ''UNCATEGORIZED''\<rparr>,
               \<lparr>id' = JStr ''A'', name = JStr ''x'', tags = JArr [],
                fingerprint = None, nrci = None, raw = ''JSON Line'',
                category = ''UNCATEGORIZED''\<rparr>],
             validJsonCount = 2, markdownCount = 0\<rparr>,
            [\<lparr>code = ''UNCATEGORIZED'', count = 2, description = ''Unknown Domain'',
              percent = ''100.0%''\<rparr>])\<close>
  by code_simp

text \<open>
  Claim C7. The markdown input \<^verbatim>\<open>- [x] **ID1**: Some description. Tags: chemistry, lab\<close>
  followed by a newline is not JSON; the line scan produces exactly one entry, with id
  \<^verbatim>\<open>ID1\<close> and tags \<^verbatim>\<open>chemistry\<close>, \<^verbatim>\<open>lab\<close>, and its category is \<^verbatim>\<open>SUBSTANCE\<close>.
\<close>

theorem classify_markdown_example:
  "JSON_parse ''- [x] **ID1**: Some description. Tags: chemistry, lab\<newline>'' = Inl SyntaxError
   \<and> classify ''- [x] **ID1**: Some description. Tags: chemistry, lab\<newline>''
     = Inr (\<lparr>entries =
              [\<lparr>id' = JStr ''ID1'',
                name = JStr ''Some description. Tags: chemistry, lab'',
                tags = JArr [JStr ''chemistry'', JStr ''lab''],
                fingerprint = None, nrci = None, raw = ''Markdown Line'',
                category = ''SUBSTANCE''\<rparr>],
             validJsonCount = 0, markdownCount = 1\<rparr>,
            [\<lparr>code = ''SUBSTANCE'', count = 1,
              description = ''Stable Matter & Elements (Bit 12=1)'',
              percent = ''100.0%''\<rparr>])"
  by code_simp

theorem classify_markdown_example_witness:
  "map id' (entries (fst (projr
      (classify ''- [x] **ID1**: Some description. Tags: chemistry, lab\<newline>''))))
     = [JStr ''ID1'']"
  using classify_markdown_example by simp

text \<open>
  The override on the structured path: an element with the id \<^verbatim>\<open>LAW_01\<close> and the
  explicit tag \<^verbatim>\<open>SUBSTANCE\<close> becomes one entry with the label \<^verbatim>\<open>IMPERATIVE\<close>.
\<close>

theorem classify_law_example:
  \<open>classify ''[{"ubp_id":"LAW_01","name":"Test","tags":["SUBSTANCE"]}]''
     = Inr (\<lparr>entries =
              [\<lparr>id' = JStr ''LAW_01'', name = JStr ''Test'', tags = JArr [JStr ''SUBSTANCE''],
                fingerprint = None, nrci = None, raw = ''JSON Object'',
                category = ''IMPERATIVE''\<rparr>],
             validJsonCount = 1, markdownCount = 0\<rparr>,
            [\<lparr>code = ''IMPERATIVE'', count = 1, description = ''System Laws & Constraints'',
              percent = ''100.0%''\<rparr>])\<close>
  by code_simp

subsection \<open>Every entry has one of the nine labels\<close>

lemma labelled_push_json:
  "labelled st \<Longrightarrow> category en \<in> set labels \<Longrightarrow> labelled (push_json st en)"
  by (simp add: labelled_def push_json_def)

lemma labelled_push_markdown:
  "labelled st \<Longrightarrow> category en \<in> set labels \<Longrightarrow> labelled (push_markdown st en)"
  by (simp add: labelled_def push_markdown_def)

lemma forEach_items_labelled:
  "labelled st \<Longrightarrow> forEach_items items st = (st', e) \<Longrightarrow> labelled st'"
proof (induction items arbitrary: st)
  case Nil
  then show ?case by simp
next
  case (Cons item items)
  show ?case
  proof (cases "entry_of_item ''JSON Object'' item")
    case (Inl x)
    with Cons.prems show ?thesis by simp
  next
    case (Inr en)
    with Cons.prems have "forEach_items items (push_json st en) = (st', e)" by simp
    moreover have "labelled (push_json st en)"
      using Cons.prems(1) Inr by (intro labelled_push_json entry_of_item_label)
    ultimately show ?thesis by (rule Cons.IH [rotated])
  qed
qed

lemma try_structured_labelled:
  "labelled st \<Longrightarrow> try_structured kb st = (st', e) \<Longrightarrow> labelled st'"
  unfolding try_structured_def
  by (auto split: sum.splits jsval.splits dest: forEach_items_labelled)

lemma scan_line_labelled:
  assumes "labelled st" and "scan_line l st = Inr st'"
  shows "labelled st'"
proof (cases "match_entry_line l")
  case None
  with assms show ?thesis
    unfolding scan_line_def
    by (auto simp: on_ok_def split: if_splits sum.splits
        intro: labelled_push_json entry_of_item_label)
next
  case (Some m)
  obtain marker ident content where m: "m = (marker, ident, content)"
    by (cases m)
  from assms Some show ?thesis
    unfolding scan_line_def m Let_def
    by (auto simp: on_ok_def categorize_call_typed categorize_in_labels
        intro!: labelled_push_markdown)
qed

lemma forEach_lines_labelled:
  "labelled st \<Longrightarrow> forEach_lines ls st = Inr st' \<Longrightarrow> labelled st'"
proof (induction ls arbitrary: st)
  case Nil
  then show ?case by simp
next
  case (Cons l ls)
  then show ?case
    by (auto split: sum.splits dest: scan_line_labelled)
qed

lemma classify_labelled:
  assumes "classify kb = Inr (st, stats)"
  shows "labelled st"
proof -
  let ?s0 = "\<lparr>entries = [], validJsonCount = 0, markdownCount = 0\<rparr>"
  have l0: "labelled ?s0" by (simp add: labelled_def)
  obtain st1 e where t: "try_structured kb ?s0 = (st1, e)"
    by (cases "try_structured kb ?s0")
  then have l1: "labelled st1"
    using l0 try_structured_labelled by blast
  show ?thesis
  proof (cases e)
    case None
    with assms t l1 show ?thesis by (simp add: classify_def on_ok_def)
  next
    case (Some x)
    with assms t have "forEach_lines (split_on (CHR 0x0A) kb) st1 = Inr st"
      by (simp add: classify_def on_ok_def split: sum.splits)
    with l1 show ?thesis by (rule forEach_lines_labelled)
  qed
qed

text \<open>
  Claim C8. For every id, name and tag list \<^const>\<open>categorize\<close> returns one label, and it is
  one of the nine labels (the eight domains and \<^verbatim>\<open>UNCATEGORIZED\<close>, all different); every
  entry of every result of the classifier carries one of the nine.
\<close>

theorem categorize_one_of_nine:
  "categorize i n ts \<in> set labels \<and> distinct labels \<and> length labels = 9
   \<and> (classify kb = Inr (st, stats) \<longrightarrow> (\<forall>e \<in> set (entries st). category e \<in> set labels))"
proof -
  have "distinct labels \<and> length labels = 9"
    by (simp add: labels_def domains_def)
  moreover have
    "classify kb = Inr (st, stats) \<longrightarrow> (\<forall>e \<in> set (entries st). category e \<in> set labels)"
    using classify_labelled [of kb st stats] by (simp add: labelled_def list_all_iff)
  ultimately show ?thesis
    using categorize_in_labels by blast
qed

theorem categorize_one_of_nine_witness:
  \<open>classify ''[{"ubp_id":"UBP-1","name":"Test","tags":["CHEMISTRY"]}]''
     = Inr (\<lparr>entries =
              [\<lparr>id' = JStr ''UBP-1'', name = JStr ''Test'', tags = JArr [JStr ''CHEMISTRY''],
                fingerprint = None, nrci = None, raw = ''JSON Object'',
                category = ''SUBSTANCE''\<rparr>],
             validJsonCount = 1, markdownCount = 0\<rparr>,
            [\<lparr>code = ''SUBSTANCE'', count = 1,
              description = ''Stable Matter & Elements (Bit 12=1)'',
              percent = ''100.0%''\<rparr>])
   \<and> ''SUBSTANCE'' \<in> set labels
   \<and> categorize ''UBP-1'' ''Test'' [''CHEMISTRY''] \<in> set labels\<close>
proof -
  have ev: \<open>classify ''[{"ubp_id":"UBP-1","name":"Test","tags":["CHEMISTRY"]}]''
     = Inr (\<lparr>entries =
              [\<lparr>id' = JStr ''UBP-1'', name = JStr ''Test'', tags = JArr [JStr ''CHEMISTRY''],
                fingerprint = None, nrci = None, raw = ''JSON Object'',
                category = ''SUBSTANCE''\<rparr>],
             validJsonCount = 1, markdownCount = 0\<rparr>,
            [\<lparr>code = ''SUBSTANCE'', count = 1,
              description = ''Stable Matter & Elements (Bit 12=1)'',
              percent = ''100.0%''\<rparr>])\<close>
    by code_simp
  from categorize_one_of_nine
    [of "''UBP-1''" "''Test''" "[''CHEMISTRY'']" _ _ _ , THEN conjunct2, THEN conjunct2,
      THEN conjunct2, rule_format, OF ev]
    categorize_one_of_nine [of "''UBP-1''" "''Test''" "[''CHEMISTRY'']", THEN conjunct1]
    ev
  show ?thesis by simp
qed

section \<open>Properties of the aggregation\<close>

text \<open>
  Claim C6. The statistics are sorted by count in descending order, for every list of
  entries and so in every result of the classifier.
\<close>

theorem categoryStats_sorted:
  "sorted_wrt (\<lambda>a b. count b \<le> count a) (categoryStats es)
   \<and> (classify kb = Inr (st, stats) \<longrightarrow> sorted_wrt (\<lambda>a b. count b \<le> count a) stats)"
proof -
  have key: "sorted_wrt (\<lambda>a b. count b \<le> count a) (categoryStats xs)" for xs
  proof -
    have "sorted (map (\<lambda>s. - int (count s)) (categoryStats xs))"
      unfolding categoryStats_def by (rule sorted_sort_key)
    then show ?thesis
      by (simp add: sorted_map sorted_wrt_iff_nth_less)
  qed
  then show ?thesis
    by (auto dest: classify_stats)
qed

theorem categoryStats_sorted_witness:
  \<open>map count (snd (projr (classify
      ''{"a":{"name":"energy"},"b":{"name":"math"},"c":{"tags":["math"]}}''))) = [2, 1]
   \<and> sorted_wrt (\<lambda>a b. count b \<le> count a) (snd (projr (classify
      ''{"a":{"name":"energy"},"b":{"name":"math"},"c":{"tags":["math"]}}'')))\<close>
proof -
  obtain st stats where
    r: \<open>classify ''{"a":{"name":"energy"},"b":{"name":"math"},"c":{"tags":["math"]}}'' = Inr (st, stats)\<close>
    using classify_returns by (metis surj_pair)
  have ev: \<open>map count (snd (projr (classify
      ''{"a":{"name":"energy"},"b":{"name":"math"},"c":{"tags":["math"]}}''))) = [2, 1]\<close>
    by code_simp
  from categoryStats_sorted [THEN conjunct2, rule_format, OF r] r ev
  show ?thesis by simp
qed

subsection \<open>The arithmetic of the percentage\<close>

lemma exponent2_lower:
  assumes "0 < q"
  shows "2 powi (exponent2 q) \<le> q"
proof -
  obtain a b where ab: "quotient_of q = (a, b)"
    by (cases "quotient_of q")
  then have q: "q = of_int a / of_int b" and b: "0 < b"
    by (simp_all add: quotient_of_div quotient_of_denom_pos)
  with assms have a: "0 < a"
    by (simp add: zero_less_divide_iff)
  define A where "A = bitlen a"
  define B where "B = bitlen b"
  from bitlen_bounds [OF a] have "2 ^ nat (A - 1) \<le> a" by (simp add: A_def)
  then have "(of_int (2 ^ nat (A - 1)) :: rat) \<le> of_int a"
    by (simp only: of_int_le_iff)
  moreover from a have A: "1 \<le> A"
    by (simp add: A_def bitlen_alt_def)
  ultimately have lo: "(2 powi (A - 1) :: rat) \<le> of_int a"
    by (simp add: power_int_def)
  from bitlen_bounds [OF b] have "b < 2 ^ nat B" by (simp add: B_def)
  then have "(of_int b :: rat) < of_int (2 ^ nat B)"
    by (simp only: of_int_less_iff)
  moreover have Bn: "0 \<le> B" by (simp add: B_def bitlen_nonneg)
  ultimately have hi: "(of_int b :: rat) \<le> 2 powi B"
    by (simp add: power_int_def)
  have "A - B - 1 = (A - 1) - B" by simp
  then have "(2 powi (A - B - 1) :: rat) = 2 powi (A - 1) / 2 powi B"
    by (simp only: power_int_diff [of "2 :: rat" "A - 1" B, OF disjI1])
  also have "\<dots> \<le> of_int a / of_int b"
    using lo hi a b by (intro frac_le) simp_all
  finally have low: "(2 powi (A - B - 1) :: rat) \<le> q"
    by (simp add: q)
  show ?thesis
    using low by (simp add: exponent2_def ab Let_def A_def B_def)
qed

lemma exponent2_upper:
  assumes "0 < q"
  shows "q < 2 powi (exponent2 q + 1)"
proof -
  obtain a b where ab: "quotient_of q = (a, b)"
    by (cases "quotient_of q")
  then have q: "q = of_int a / of_int b" and b: "0 < b"
    by (simp_all add: quotient_of_div quotient_of_denom_pos)
  with assms have a: "0 < a"
    by (simp add: zero_less_divide_iff)
  define A where "A = bitlen a"
  define B where "B = bitlen b"
  from bitlen_bounds [OF a] have "a < 2 ^ nat A" by (simp add: A_def)
  then have "(of_int a :: rat) < of_int (2 ^ nat A)"
    by (simp only: of_int_less_iff)
  moreover have "0 \<le> A" by (simp add: A_def bitlen_nonneg)
  ultimately have hi: "(of_int a :: rat) < 2 powi A"
    by (simp add: power_int_def)
  from bitlen_bounds [OF b] have "2 ^ nat (B - 1) \<le> b" by (simp add: B_def)
  then have "(of_int (2 ^ nat (B - 1)) :: rat) \<le> of_int b"
    by (simp only: of_int_le_iff)
  moreover from b have "1 \<le> B"
    by (simp add: B_def bitlen_alt_def)
  ultimately have lo: "(2 powi (B - 1) :: rat) \<le> of_int b"
    by (simp add: power_int_def)
  have "of_int a / of_int b < (2 powi A :: rat) / of_int b"
    using hi b by (simp add: divide_strict_right_mono)
  also have "\<dots> \<le> 2 powi A / 2 powi (B - 1)"
    using lo b by (intro divide_left_mono) simp_all
  also have "\<dots> = 2 powi (A - (B - 1))"
    by (simp only: power_int_diff [of "2 :: rat" A "B - 1", OF disjI1])
  finally have up: "q < 2 powi (A - B + 1)"
    by (simp add: q algebra_simps)
  show ?thesis
  proof (cases "(2 powi (A - B) :: rat) \<le> q")
    case True
    with up show ?thesis
      by (simp add: exponent2_def ab Let_def A_def B_def)
  next
    case False
    then show ?thesis
      by (simp add: exponent2_def ab Let_def A_def B_def)
  qed
qed

text \<open>The scaled value has a significand of 53 bits.\<close>

lemma binary64_significand:
  assumes "0 < q"
  shows "2 ^ 52 \<le> q / 2 powi (exponent2 q - 52) \<and> q / 2 powi (exponent2 q - 52) < 2 ^ 53"
proof -
  have u: "(2 powi (exponent2 q - 52) :: rat) = 2 powi (exponent2 q) / 2 ^ 52"
    by (simp add: power_int_diff)
  have p: "(0 :: rat) < 2 powi (exponent2 q)" by simp
  have "(2 powi (exponent2 q + 1) :: rat) = 2 * 2 powi (exponent2 q)"
    by (simp add: power_int_add)
  with exponent2_upper [OF assms] have up: "q < 2 * 2 powi (exponent2 q)"
    by simp
  define r where "r = q / 2 powi (exponent2 q)"
  from exponent2_lower [OF assms] p have "1 \<le> r"
    by (simp add: r_def field_simps)
  moreover from up p have "r < 2"
    by (simp add: r_def field_simps)
  moreover have "q / (2 powi (exponent2 q) / 2 ^ 52) = r * 2 ^ 52"
    by (simp add: r_def)
  ultimately show ?thesis
    unfolding u by simp
qed

lemma round_half_even_error: "\<bar>of_int (round_half_even r) - r\<bar> \<le> 1 / 2"
proof -
  have "of_int \<lfloor>r\<rfloor> \<le> r" "r < of_int \<lfloor>r\<rfloor> + 1"
    by linarith+
  then show ?thesis
    unfolding round_half_even_def Let_def
    by (auto simp: abs_le_iff)
qed

lemma binary64_error:
  assumes "0 < q"
  shows "\<bar>binary64 q - q\<bar> \<le> q / 2 ^ 53"
proof -
  define u :: rat where "u = 2 powi (exponent2 q - 52)"
  have u0: "0 < u" by (simp add: u_def)
  have "u = 2 powi (exponent2 q) / 2 ^ 52"
    by (simp add: u_def power_int_diff)
  also have "\<dots> \<le> q / 2 ^ 52"
    using exponent2_lower [OF assms] by (simp add: divide_right_mono)
  finally have u: "u \<le> q / 2 ^ 52" .
  have "binary64 q - q = u * (of_int (round_half_even (q / u)) - q / u)"
    using u0 by (simp add: binary64_def u_def [symmetric] algebra_simps)
  then have "\<bar>binary64 q - q\<bar> = u * \<bar>of_int (round_half_even (q / u)) - q / u\<bar>"
    using u0 by (simp add: abs_mult)
  also have "\<dots> \<le> u * (1 / 2)"
    using u0 round_half_even_error by (intro mult_left_mono) simp_all
  also have "\<dots> \<le> (q / 2 ^ 52) * (1 / 2)"
    using u by simp
  finally show ?thesis by simp
qed

lemma binary64_pos:
  assumes q: "0 < q"
  shows "0 < binary64 q"
proof -
  define d where "d = q / 2 ^ 53"
  have d: "d < q"
    using q by (simp add: d_def)
  from binary64_error [OF q] have "\<bar>binary64 q - q\<bar> \<le> d"
    by (simp only: d_def)
  with d show ?thesis by linarith
qed

lemma digit_val_digit_char:
  assumes "d < 10"
  shows "digit_val (digit_char d) = Some d"
proof -
  have "list_all (\<lambda>d. digit_val (digit_char d) = Some d) [0 ..< 10]"
    by code_simp
  moreover from assms have "d \<in> set [0 ..< 10]"
    by simp
  ultimately show ?thesis
    by (simp only: list_all_iff)
qed

lemma digit_val_zero: "digit_val (CHR ''0'') = Some 0"
  by code_simp

lemma int_of_digits_zero:
  "int_of_digits (CHR ''0'' # ds) = int_of_digits ds"
  by (simp add: int_of_digits_def digit_val_zero)

lemma int_of_digits_snoc:
  "int_of_digits (ds @ [c]) = 10 * int_of_digits ds + (case digit_val c of Some d \<Rightarrow> int d | None \<Rightarrow> 0)"
  by (simp add: int_of_digits_def)

lemma decimal_value: "int_of_digits (decimal n) = int n"
proof (induction n rule: decimal.induct)
  case (1 n)
  show ?case
  proof (cases "n < 10")
    case True
    then show ?thesis
      by (subst decimal.simps) (simp add: int_of_digits_def digit_val_digit_char)
  next
    case False
    with 1 have "int_of_digits (decimal (n div 10)) = int (n div 10)" by simp
    with False show ?thesis
      by (subst decimal.simps) (simp add: int_of_digits_snoc digit_val_digit_char, presburger)
  qed
qed

lemma decimal_digits: "list_all is_digit (decimal n)"
proof (induction n rule: decimal.induct)
  case (1 n)
  show ?case
  proof (cases "n < 10")
    case True
    then show ?thesis
      by (subst decimal.simps) (simp add: is_digit_def digit_val_digit_char)
  next
    case False
    with 1 have "list_all is_digit (decimal (n div 10))" by simp
    with False show ?thesis
      by (subst decimal.simps) (simp add: is_digit_def digit_val_digit_char)
  qed
qed

lemma decimal_nonempty: "decimal n \<noteq> []"
  by (subst decimal.simps) simp

lemma tenths_shown_toFixed1:
  assumes "0 \<le> x"
  shows "tenths_shown (toFixed1 x @ ''%'') = \<lfloor>10 * x + 1 / 2\<rfloor>"
proof -
  define n where "n = nat \<lfloor>10 * x + 1 / 2\<rfloor>"
  define m where "m = (if length (decimal n) \<le> 1 then CHR ''0'' # decimal n else decimal n)"
  have "is_digit (CHR ''0'')"
    by (simp add: is_digit_def digit_val_zero)
  then have m_digits: "list_all is_digit m"
    using decimal_digits [of n] by (simp add: m_def)
  have m_ne: "m \<noteq> []"
    using decimal_nonempty [of n] by (simp add: m_def)
  have m_val: "int_of_digits m = int n"
    using decimal_value [of n] by (simp add: m_def int_of_digits_zero)
  have "toFixed1 x = butlast m @ ''.'' @ [last m]"
    by (simp add: toFixed1_def n_def m_def Let_def)
  moreover have "filter is_digit (butlast m @ ''.'' @ [last m] @ ''%'') = butlast m @ [last m]"
  proof -
    from m_digits have "list_all is_digit (butlast m)" "is_digit (last m)"
      using m_ne by (auto simp: list_all_iff dest: in_set_butlastD)
    moreover have "\<not> is_digit (CHR ''.'')" "\<not> is_digit (CHR ''%'')"
      by code_simp+
    ultimately show ?thesis
      by (simp add: list_all_iff filter_id_conv)
  qed
  ultimately have "tenths_shown (toFixed1 x @ ''%'') = int_of_digits m"
    using m_ne by (simp add: tenths_shown_def)
  also have "\<dots> = \<lfloor>10 * x + 1 / 2\<rfloor>"
    using assms by (simp add: m_val n_def)
  finally show ?thesis .
qed


lemma percentage_error:
  fixes q :: rat
  assumes "0 < q" and "q \<le> 1"
  shows "\<bar>binary64 (binary64 q * 100) - 100 * q\<bar> \<le> 300 / 2 ^ 53"
proof -
  define q1 where "q1 = binary64 q"
  define x where "x = binary64 (q1 * 100)"
  have e1: "\<bar>q1 - q\<bar> \<le> q / 2 ^ 53"
    unfolding q1_def by (rule binary64_error [OF assms(1)])
  have q1_pos: "0 < q1"
    unfolding q1_def by (rule binary64_pos [OF assms(1)])
  have "q / 2 ^ 53 \<le> q"
    using assms(1) by (simp add: field_simps)
  with e1 have q1_le: "q1 \<le> 2 * q"
    by linarith
  have e2: "\<bar>x - q1 * 100\<bar> \<le> (q1 * 100) / 2 ^ 53"
    unfolding x_def using q1_pos by (intro binary64_error) simp
  have "\<bar>x - 100 * q\<bar> = \<bar>(x - q1 * 100) + 100 * (q1 - q)\<bar>"
    by (simp add: algebra_simps)
  also have "\<dots> \<le> \<bar>x - q1 * 100\<bar> + \<bar>100 * (q1 - q)\<bar>"
    by (rule abs_triangle_ineq)
  also have "\<dots> = \<bar>x - q1 * 100\<bar> + 100 * \<bar>q1 - q\<bar>"
    by (subst abs_mult) simp
  also have "\<dots> \<le> (q1 * 100) / 2 ^ 53 + 100 * (q / 2 ^ 53)"
    using e1 e2 by (intro add_mono mult_left_mono) simp_all
  also have "\<dots> \<le> (2 * q * 100) / 2 ^ 53 + 100 * (q / 2 ^ 53)"
    using q1_le by (simp add: divide_right_mono)
  also have "\<dots> = 300 * q / 2 ^ 53"
    by simp
  also have "\<dots> \<le> 300 / 2 ^ 53"
    using assms(2) by (simp add: divide_right_mono)
  finally show ?thesis
    by (simp add: x_def q1_def)
qed

lemma percentage_nearest:
  assumes "0 < c" and "c \<le> t" and "t < 2 ^ 32"
  shows "\<bar>of_int (tenths_shown (percentage c t)) / 10 - 100 * of_nat c / of_nat t\<bar>
           \<le> (1 / 20 :: rat)"
proof -
  define T :: rat where "T = of_nat t"
  define C :: rat where "C = of_nat c"
  define q where "q = C / T"
  define x where "x = binary64 (binary64 q * 100)"
  define n where "n = \<lfloor>10 * x + 1 / 2\<rfloor>"
  from assms have T: "0 < T" and C: "0 < C" and CT: "C \<le> T"
    by (simp_all add: T_def C_def)
  have T32: "T < 2 ^ 32"
    using assms(3) unfolding T_def by (metis of_nat_less_iff of_nat_numeral of_nat_power) 
  have q: "0 < q" "q \<le> 1"
    using T C CT by (simp_all add: q_def)
  have x_pos: "0 < x"
    unfolding x_def using q(1) by (intro binary64_pos mult_pos_pos) simp_all
  define eps :: rat where "eps = 300 / 2 ^ 53"
  have err: "\<bar>x - 100 * q\<bar> \<le> eps"
    unfolding x_def eps_def by (rule percentage_error [OF q])
  have shown: "tenths_shown (percentage c t) = n"
    using assms(1,2) x_pos
    by (simp add: percentage_def n_def x_def q_def T_def C_def tenths_shown_toFixed1)
  have n1: "of_int n \<le> 10 * x + 1 / 2" and n2: "10 * x + 1 / 2 < of_int n + 1"
    unfolding n_def by linarith+
  define K :: int where "K = n * int t - 1000 * int c"
  have K: "(of_int K :: rat) = T * (of_int n - 1000 * q)"
    using T by (simp add: K_def T_def C_def q_def field_simps)
  have "\<bar>of_int n - 1000 * q\<bar> \<le> 1 / 2 + 10 * eps"
    using n1 n2 err by linarith
  then have "T * \<bar>of_int n - 1000 * q\<bar> \<le> T * (1 / 2 + 10 * eps)"
    using T by (intro mult_left_mono) simp_all
  moreover have "T * (10 * eps) < 1 / 2"
  proof -
    have "0 < 10 * eps" by (simp add: eps_def)
    then have "T * (10 * eps) < 2 ^ 32 * (10 * eps)"
      using T32 by (intro mult_strict_right_mono)
    also have "\<dots> < (1 / 2 :: rat)" by (simp add: eps_def)
    finally show ?thesis .
  qed
  moreover have "\<bar>of_int K :: rat\<bar> = T * \<bar>of_int n - 1000 * q\<bar>"
    using T by (simp add: K abs_mult)
  ultimately have "\<bar>of_int K :: rat\<bar> < T / 2 + 1 / 2"
    by (simp add: algebra_simps)
  then have "(of_int (2 * \<bar>K\<bar>) :: rat) < of_int (int t + 1)"
    by (simp add: T_def)
  then have "2 * \<bar>K\<bar> < int t + 1"
    by (simp only: of_int_less_iff)
  then have "2 * \<bar>K\<bar> \<le> int t"
    by simp
  then have "(of_int (2 * \<bar>K\<bar>) :: rat) \<le> of_int (int t)"
    by (simp only: of_int_le_iff)
  then have "\<bar>of_int K :: rat\<bar> \<le> T / 2"
    by (simp add: T_def)
  then have "T * \<bar>of_int n - 1000 * q\<bar> \<le> T * (1 / 2)"
    using T by (simp add: K abs_mult)
  then have "\<bar>of_int n - 1000 * q\<bar> \<le> 1 / 2"
    using T by (simp only: mult_le_cancel_left_pos)
  then have "\<bar>of_int n / 10 - 100 * q\<bar> \<le> 1 / 20"
    by linarith
  then show ?thesis
    by (simp add: shown q_def C_def T_def)
qed

subsection \<open>The statistics of an entry list\<close>

lemma count_stat_of: "count (stat_of t p) = snd p"
  by (cases p) simp

lemma percent_stat_of: "percent (stat_of t p) = percentage (snd p) t"
  by (cases p) simp

lemma categoryStats_percent:
  "s \<in> set (categoryStats es) \<Longrightarrow> percent s = percentage (count s) (length es)"
  by (auto simp: categoryStats_def count_stat_of percent_stat_of)

lemma bump_sum: "sum_list (map snd (bump m k)) = Suc (sum_list (map snd m))"
  by (induction m k rule: bump.induct) simp_all

lemma bump_pos: "list_all (\<lambda>p. 0 < snd p) m \<Longrightarrow> list_all (\<lambda>p. 0 < snd p) (bump m k)"
  by (induction m k rule: bump.induct) simp_all

lemma fold_bump_sum:
  "sum_list (map snd (foldl (\<lambda>m e. bump m (category e)) m0 es))
     = sum_list (map snd m0) + length es"
  by (induction es arbitrary: m0) (simp_all add: bump_sum)

lemma fold_bump_pos:
  "list_all (\<lambda>p. 0 < snd p) m0 \<Longrightarrow>
   list_all (\<lambda>p. 0 < snd p) (foldl (\<lambda>m e. bump m (category e)) m0 es)"
  by (induction es arbitrary: m0) (simp_all add: bump_pos)

lemma sum_list_insort_key:
  "sum_list (map f (insort_key k x xs)) = (f x :: nat) + sum_list (map f xs)"
  by (induction xs) simp_all

lemma sum_list_sort_key: "sum_list (map f (sort_key k xs)) = (sum_list (map f xs) :: nat)"
  by (induction xs) (simp_all add: sum_list_insort_key)

lemma categoryStats_sum: "sum_list (map count (categoryStats es)) = length es"
proof -
  have "sum_list (map count (categoryStats es)) = sum_list (map snd (statsMap es))"
    unfolding categoryStats_def
    by (simp add: sum_list_sort_key comp_def count_stat_of)
  also have "\<dots> = length es"
    unfolding statsMap_def by (simp add: fold_bump_sum)
  finally show ?thesis .
qed

lemma categoryStats_pos: "list_all (\<lambda>s. 0 < count s) (categoryStats es)"
proof -
  have "list_all (\<lambda>p. 0 < snd p) (statsMap es)"
    unfolding statsMap_def by (rule fold_bump_pos) simp
  then show ?thesis
    unfolding categoryStats_def
    by (simp add: list_all_iff count_stat_of)
qed

lemma categoryStats_count_bounds:
  assumes "s \<in> set (categoryStats es)"
  shows "0 < count s \<and> count s \<le> length es"
proof -
  from assms categoryStats_pos [of es] have "0 < count s"
    by (simp add: list_all_iff)
  moreover from assms have "count s \<le> sum_list (map count (categoryStats es))"
    by (intro member_le_sum_list) auto
  ultimately show ?thesis
    by (simp add: categoryStats_sum)
qed

lemma sum_list_abs_diff:
  fixes f g :: "'a \<Rightarrow> rat"
  assumes "\<And>x. x \<in> set xs \<Longrightarrow> \<bar>f x - g x\<bar> \<le> d"
  shows "\<bar>sum_list (map f xs) - sum_list (map g xs)\<bar> \<le> of_nat (length xs) * d"
  using assms
proof (induction xs)
  case Nil
  show ?case by simp
next
  case (Cons x xs)
  have "\<bar>f x - g x\<bar> \<le> d"
    by (rule Cons.prems) simp
  moreover have "\<bar>sum_list (map f xs) - sum_list (map g xs)\<bar> \<le> of_nat (length xs) * d"
    by (rule Cons.IH) (simp add: Cons.prems)
  ultimately show ?case
    by (simp add: algebra_simps)
qed

lemma sum_list_shares:
  fixes T :: rat
  shows "sum_list (map (\<lambda>s. 100 * of_nat (count s) / T) xs)
           = 100 * of_nat (sum_list (map count xs)) / T"
  by (induction xs) (simp_all add: add_divide_distrib distrib_left)

text \<open>
  Claim C5, as stated, fails in two points. First, the percentage is printed from the
  double \<^verbatim>\<open>(count / total) * 100\<close>, not from \<open>100 * count / total\<close>: with 23 entries of 80
  in one category (each \<^verbatim>\<open>{"name":"math"}\<close> gives such an entry, each \<^verbatim>\<open>{"name":"a"}\<close> one
  of the other 57) the exact value is 28.75, which rounds to 28.8 whether a tie goes up or
  to the even neighbour, and the code prints \<^verbatim>\<open>28.7%\<close>, since the double is just below
  28.75. Second, the printed percentages are rounded to one decimal place, so their sum is
  100 only up to that rounding, not up to the rounding of floating-point arithmetic: three
  entries in three categories print \<^verbatim>\<open>33.3%\<close> three times, which add up to 99.9.
\<close>

theorem percent_counterexample:
  \<open>entry_of_item ''JSON Object'' (JObj [(''name'', JStr ''math'')])
     = Inr \<lparr>id' = JStr ''UNKNOWN'', name = JStr ''math'', tags = JArr [], fingerprint = None,
            nrci = None, raw = ''JSON Object'', category = ''QUANTITY''\<rparr>
   \<and> entry_of_item ''JSON Object'' (JObj [(''name'', JStr ''a'')])
     = Inr \<lparr>id' = JStr ''UNKNOWN'', name = JStr ''a'', tags = JArr [], fingerprint = None,
            nrci = None, raw = ''JSON Object'', category = ''UNCATEGORIZED''\<rparr>
   \<and> map (\<lambda>s. (code s, count s, percent s)) (categoryStats
        (replicate 23 \<lparr>id' = JStr ''UNKNOWN'', name = JStr ''math'', tags = JArr [],
            fingerprint = None, nrci = None, raw = ''JSON Object'', category = ''QUANTITY''\<rparr>
         @ replicate 57 \<lparr>id' = JStr ''UNKNOWN'', name = JStr ''a'', tags = JArr [],
            fingerprint = None, nrci = None, raw = ''JSON Object'',
            category = ''UNCATEGORIZED''\<rparr>))
     = [(''UNCATEGORIZED'', 57, ''71.3%''), (''QUANTITY'', 23, ''28.7%'')]
   \<and> tenths_shown (percentage 23 80) = 287
   \<and> spec_percent_tenths 23 80 = 288
   \<and> round_half_even (10 * (100 * 23 / 80)) = 288
   \<and> map percent (snd (projr (classify ''[{"name":"energy"},{"name":"math"},{"name":"word"}]'')))
     = [''33.3%'', ''33.3%'', ''33.3%'']
   \<and> (\<Sum>s\<leftarrow>snd (projr (classify ''[{"name":"energy"},{"name":"math"},{"name":"word"}]'')).
         tenths_shown (percent s)) = 999\<close>
  by code_simp

text \<open>
  Claim C5, amended. For every input (an array holds fewer than \<open>2\<^sup>3\<^sup>2\<close> entries), each
  statistic's percentage is the text that the code computes from its count and the total,
  the double \<^verbatim>\<open>(count / total) * 100\<close> printed with one decimal place, and the number it
  shows is a multiple of 0.1 that differs from \<open>100 * count / total\<close> by at most 0.05: a
  nearest one, either neighbour when the exact value lies half-way. With at least one
  parsed entry the percentages shown add up to 100 up to 0.05 per statistic. With no parsed
  entry there is no statistic, and conversely; the guarded expression gives \<^verbatim>\<open>0%\<close> for a
  total of zero and divides nothing.
\<close>

theorem percent_rounded:
  assumes "classify kb = Inr (st, stats)"
    and "length (entries st) < 2 ^ 32"
  shows "(\<forall>s \<in> set stats.
            percent s = percentage (count s) (length (entries st))
            \<and> \<bar>of_int (tenths_shown (percent s)) / 10
                 - 100 * of_nat (count s) / of_nat (length (entries st))\<bar> \<le> (1 / 20 :: rat))
     \<and> (entries st \<noteq> [] \<longrightarrow>
          \<bar>(\<Sum>s\<leftarrow>stats. of_int (tenths_shown (percent s)) / 10) - (100 :: rat)\<bar>
            \<le> of_nat (length stats) / 20)
     \<and> (entries st = [] \<longleftrightarrow> stats = [])
     \<and> percentage c 0 = ''0%''"
proof -
  define es where "es = entries st"
  define T :: rat where "T = of_nat (length es)"
  from assms(1) have stats: "stats = categoryStats es"
    unfolding es_def by (rule classify_stats)
  have each: "percent s = percentage (count s) (length es)
      \<and> \<bar>of_int (tenths_shown (percent s)) / 10 - 100 * of_nat (count s) / T\<bar> \<le> 1 / 20"
    if "s \<in> set stats" for s
  proof -
    from that have s: "s \<in> set (categoryStats es)"
      by (simp add: stats)
    have p: "percent s = percentage (count s) (length es)"
      by (rule categoryStats_percent [OF s])
    from categoryStats_count_bounds [OF s]
    have "\<bar>of_int (tenths_shown (percentage (count s) (length es))) / 10
            - 100 * of_nat (count s) / of_nat (length es)\<bar> \<le> (1 / 20 :: rat)"
      using assms(2) by (intro percentage_nearest) (simp_all add: es_def)
    with p show ?thesis
      by (simp add: T_def)
  qed
  have total: "\<bar>(\<Sum>s\<leftarrow>stats. of_int (tenths_shown (percent s)) / 10) - (100 :: rat)\<bar>
      \<le> of_nat (length stats) / 20" if "es \<noteq> []"
  proof -
    from that have T: "0 < T"
      by (simp add: T_def)
    have "\<bar>(\<Sum>s\<leftarrow>stats. of_int (tenths_shown (percent s)) / 10)
            - (\<Sum>s\<leftarrow>stats. 100 * of_nat (count s) / T)\<bar> \<le> of_nat (length stats) * (1 / 20)"
      by (rule sum_list_abs_diff) (use each in blast)
    moreover have "(\<Sum>s\<leftarrow>stats. 100 * of_nat (count s) / T) = 100"
      using T by (simp add: sum_list_shares stats categoryStats_sum T_def)
    ultimately show ?thesis
      by simp
  qed
  have none: "es = [] \<longleftrightarrow> stats = []"
  proof
    assume "es = []"
    then show "stats = []"
      by (simp add: stats categoryStats_def statsMap_def)
  next
    assume "stats = []"
    with categoryStats_sum [of es] show "es = []"
      by (simp add: stats)
  qed
  have zero: "percentage c 0 = ''0%''"
    by (simp add: percentage_def)
  from each [unfolded T_def es_def] total [unfolded es_def] none [unfolded es_def] zero
  show ?thesis
    by blast
qed

theorem percent_rounded_witness:
  \<open>length (entries (fst (projr (classify
         ''[{"name":"math"},{"name":"math"},{"name":"word"}]'')))) < (2 :: nat) ^ 32
   \<and> entries (fst (projr (classify
         ''[{"name":"math"},{"name":"math"},{"name":"word"}]''))) \<noteq> []
   \<and> map percent (snd (projr (classify
         ''[{"name":"math"},{"name":"math"},{"name":"word"}]''))) = [''66.7%'', ''33.3%'']
   \<and> \<bar>(\<Sum>s\<leftarrow>snd (projr (classify ''[{"name":"math"},{"name":"math"},{"name":"word"}]'')).
          of_int (tenths_shown (percent s)) / 10) - (100 :: rat)\<bar>
       \<le> of_nat (length (snd (projr (classify
             ''[{"name":"math"},{"name":"math"},{"name":"word"}]'')))) / 20
   \<and> entries (fst (projr (classify ''[]''))) = []
   \<and> snd (projr (classify ''[]'')) = []\<close>
proof -
  let ?kb = \<open>''[{"name":"math"},{"name":"math"},{"name":"word"}]''\<close>
  obtain st stats where r: "classify ?kb = Inr (st, stats)"
    using classify_returns by (metis surj_pair)
  obtain st0 stats0 where r0: "classify ''[]'' = Inr (st0, stats0)"
    using classify_returns by (metis surj_pair)
  have len: "length (entries (fst (projr (classify ?kb)))) = 3"
    by code_simp
  have shown: "map percent (snd (projr (classify ?kb))) = [''66.7%'', ''33.3%'']"
    by code_simp
  have empty: "entries (fst (projr (classify ''[]''))) = []"
    by code_simp
  from r len have h: "length (entries st) < 2 ^ 32" and ne: "entries st \<noteq> []"
    by auto
  from r0 empty have h0: "length (entries st0) < 2 ^ 32" and e0: "entries st0 = []"
    by simp_all
  from percent_rounded [OF r h] ne
  have "\<bar>(\<Sum>s\<leftarrow>stats. of_int (tenths_shown (percent s)) / 10) - (100 :: rat)\<bar>
      \<le> of_nat (length stats) / 20"
    by blast
  moreover from percent_rounded [OF r0 h0] e0 have "stats0 = []"
    by blast
  ultimately show ?thesis
    using r r0 h ne e0 shown by simp
qed

text \<open>
  The counts of the statistics add up to the number of entries, and every statistic has a
  positive count: a statistic exists only when the total is positive.
\<close>

theorem categoryStats_counts:
  "sum_list (map count (categoryStats es)) = length es
   \<and> list_all (\<lambda>s. 0 < count s) (categoryStats es)"
  using categoryStats_sum categoryStats_pos by blast

theorem categoryStats_counts_witness:
  "sum_list (map count (categoryStats
      [\<lparr>id' = JStr ''A'', name = JStr ''x'', tags = JArr [], fingerprint = None, nrci = None,
         raw = ''JSON Object'', category = ''MEANING''\<rparr>,
       \<lparr>id' = JStr ''B'', name = JStr ''y'', tags = JArr [], fingerprint = None, nrci = None,
         raw = ''JSON Object'', category = ''MEANING''\<rparr>])) = 2"
  using categoryStats_counts
    [of "[\<lparr>id' = JStr ''A'', name = JStr ''x'', tags = JArr [], fingerprint = None, nrci = None,
         raw = ''JSON Object'', category = ''MEANING''\<rparr>,
       \<lparr>id' = JStr ''B'', name = JStr ''y'', tags = JArr [], fingerprint = None, nrci = None,
         raw = ''JSON Object'', category = ''MEANING''\<rparr>]"]
  by simp

section \<open>Properties of the structured shape\<close>

lemma map_of_without:
  "map_of (filter (\<lambda>(k', v). k' \<noteq> k) ps) x = (if x = k then None else map_of ps x)"
  by (induction ps) auto

lemma entry_of_obj:
  "entry_of_item src (JObj ps) =
     on_ok (categorize_call (or_else (map_of ps ''ubp_id'') (JStr ''UNKNOWN''))
              (or_else (map_of ps ''name'') (JStr ''Untitled''))
              (or_else (map_of ps ''tags'') (JArr [])))
       (\<lambda>c. Inr \<lparr>id' = or_else (map_of ps ''ubp_id'') (JStr ''UNKNOWN''),
                 name = or_else (map_of ps ''name'') (JStr ''Untitled''),
                 tags = or_else (map_of ps ''tags'') (JArr []),
                 fingerprint = map_of ps ''fingerprint'', nrci = map_of ps ''nrci'',
                 raw = src, category = c\<rparr>)"
  by (simp add: entry_of_item_def on_ok_def Let_def)

lemma or_else_None: "or_else None d = d"
  by (simp add: or_else_def)

lemma on_ok_Inr: "on_ok r f = Inr y \<Longrightarrow> \<exists>x. r = Inr x \<and> f x = Inr y"
  by (cases r) (simp_all add: on_ok_def)

text \<open>
  Claim C10. When the field \<^verbatim>\<open>ubp_id\<close> or \<^verbatim>\<open>name\<close> of an element is present with a
  falsy value (the empty string, zero, \<^verbatim>\<open>false\<close>, \<^verbatim>\<open>null\<close>), the element is parsed as
  if the field were absent: the outcome is that of the element without the field, and an
  entry that is produced has the id \<^verbatim>\<open>UNKNOWN\<close>, respectively the name \<^verbatim>\<open>Untitled\<close>.
  This holds on both paths that read elements (\<open>src\<close> is \<^verbatim>\<open>JSON Object\<close> or
  \<^verbatim>\<open>JSON Line\<close>).
\<close>

theorem falsy_field_takes_default:
  assumes "get_prop item k = Inr (Some v)" and "\<not> truthy v"
    and "k = ''ubp_id'' \<or> k = ''name''"
  shows "entry_of_item src item = entry_of_item src (without k item)
     \<and> (\<forall>e. entry_of_item src item = Inr e \<longrightarrow>
          (k = ''ubp_id'' \<longrightarrow> id' e = JStr ''UNKNOWN'')
          \<and> (k = ''name'' \<longrightarrow> name e = JStr ''Untitled''))"
proof -
  from assms(1) obtain ps where item: "item = JObj ps" and v: "map_of ps k = Some v"
    by (cases item) simp_all
  let ?qs = "filter (\<lambda>(k', v). k' \<noteq> k) ps"
  have wo: "without k (JObj ps) = JObj ?qs"
    by (simp add: without_def)
  from assms(2) v have dflt: "or_else (map_of ps k) d = d" for d
    by (simp add: or_else_def)
  from assms(3) show ?thesis
  proof
    assume k: "k = ''ubp_id''"
    have same: "entry_of_item src (JObj ps) = entry_of_item src (without k (JObj ps))"
      unfolding wo entry_of_obj
      using dflt [unfolded k] by (simp add: map_of_without k or_else_None)
    have "id' e = JStr ''UNKNOWN''" if "entry_of_item src (JObj ps) = Inr e" for e
      using that dflt [unfolded k] unfolding entry_of_obj
      by (auto dest!: on_ok_Inr)
    with same k show ?thesis by (simp add: item)
  next
    assume k: "k = ''name''"
    have same: "entry_of_item src (JObj ps) = entry_of_item src (without k (JObj ps))"
      unfolding wo entry_of_obj
      using dflt [unfolded k] by (simp add: map_of_without k or_else_None)
    have "name e = JStr ''Untitled''" if "entry_of_item src (JObj ps) = Inr e" for e
      using that dflt [unfolded k] unfolding entry_of_obj
      by (auto dest!: on_ok_Inr)
    with same k show ?thesis by (simp add: item)
  qed
qed

theorem falsy_field_takes_default_witness:
  "get_prop (JObj [(''ubp_id'', JStr []), (''name'', JNum 0), (''tags'', JArr [JStr ''math''])])
      ''ubp_id'' = Inr (Some (JStr []))
   \<and> \<not> truthy (JStr [])
   \<and> entry_of_item ''JSON Line''
        (JObj [(''ubp_id'', JStr []), (''name'', JNum 0), (''tags'', JArr [JStr ''math''])])
     = entry_of_item ''JSON Line''
        (without ''ubp_id''
          (JObj [(''ubp_id'', JStr []), (''name'', JNum 0), (''tags'', JArr [JStr ''math''])]))
   \<and> entry_of_item ''JSON Line''
        (JObj [(''ubp_id'', JStr []), (''name'', JNum 0), (''tags'', JArr [JStr ''math''])])
     = Inr \<lparr>id' = JStr ''UNKNOWN'', name = JStr ''Untitled'', tags = JArr [JStr ''math''],
            fingerprint = None, nrci = None, raw = ''JSON Line'', category = ''QUANTITY''\<rparr>"
proof -
  let ?item = "JObj [(''ubp_id'', JStr []), (''name'', JNum 0), (''tags'', JArr [JStr ''math''])]"
  have h1: "get_prop ?item ''ubp_id'' = Inr (Some (JStr []))" by simp
  have h2: "\<not> truthy (JStr [])" by simp
  have ev: "entry_of_item ''JSON Line'' ?item
     = Inr \<lparr>id' = JStr ''UNKNOWN'', name = JStr ''Untitled'', tags = JArr [JStr ''math''],
            fingerprint = None, nrci = None, raw = ''JSON Line'', category = ''QUANTITY''\<rparr>"
    by code_simp
  from falsy_field_takes_default [OF h1 h2, of "''JSON Line''"] h1 h2 ev show ?thesis
    by simp
qed

section \<open>Properties of the belief view\<close>

lemma get_prop_field: "get_prop v k = (if v = JNull then Inl TypeError else Inr (field v k))"
  by (cases v) (simp_all add: field_def)

lemma belief_of_item_eq:
  "belief_of_item item =
     (if item = JNull then Inl TypeError else Inr (spec_belief_of_element item))"
  by (simp add: belief_of_item_def spec_belief_of_element_def get_prop_field on_ok_def)

lemma belief_of_member_eq:
  "belief_of_member kv =
     (if snd kv = JNull then Inl TypeError else Inr (spec_belief_of_member kv))"
  by (cases kv)
    (simp add: belief_of_member_def spec_belief_of_member_def get_prop_field on_ok_def)

lemma forEach_push_takeWhile:
  assumes "\<And>x. f x = (if bad x then Inl TypeError else Inr (g x))"
  shows "forEach_push f xs acc = acc @ map g (takeWhile (\<lambda>x. \<not> bad x) xs)"
  by (induction xs arbitrary: acc) (simp_all add: assms)

text \<open>
  Where no element is \<^verbatim>\<open>null\<close> the belief view is what the specification says. The input
  is parsed as JSON (the empty input as \<^verbatim>\<open>{}\<close>). A parse failure gives the empty list. An
  array gives one entry for each element: its id is the first truthy one of \<^verbatim>\<open>ubp_id\<close>,
  \<^verbatim>\<open>id\<close>, \<^verbatim>\<open>name\<close>, else \<^verbatim>\<open>Unknown\<close>, and its description the first truthy one of
  \<^verbatim>\<open>description\<close>, \<^verbatim>\<open>name\<close>, else \<^verbatim>\<open>No Description\<close>. An object gives one entry for
  each member: its id is the key, and its description the first truthy one of the value's
  \<^verbatim>\<open>name\<close>, \<^verbatim>\<open>description\<close>, else \<^verbatim>\<open>No Description\<close>.
\<close>

lemma parsedBeliefs_without_null:
  "(JSON_parse (if kb = [] then ''{}'' else kb) = Inl e \<longrightarrow> parsedBeliefs kb = [])
   \<and> (JSON_parse (if kb = [] then ''{}'' else kb) = Inr (JArr items) \<and> JNull \<notin> set items \<longrightarrow>
        parsedBeliefs kb = map spec_belief_of_element items)
   \<and> (JSON_parse (if kb = [] then ''{}'' else kb) = Inr (JObj members)
        \<and> JNull \<notin> snd ` set members \<longrightarrow>
        parsedBeliefs kb = map spec_belief_of_member members)"
proof -
  have items: "takeWhile (\<lambda>v. v \<noteq> JNull) items = items" if "JNull \<notin> set items"
    using that by (intro takeWhile_eq_all_conv [THEN iffD2]) auto
  have members: "takeWhile (\<lambda>kv. snd kv \<noteq> JNull) members = members"
    if "JNull \<notin> snd ` set members"
    using that by (intro takeWhile_eq_all_conv [THEN iffD2]) force
  show ?thesis
    unfolding parsedBeliefs_def
    by (auto simp add: forEach_push_takeWhile [OF belief_of_item_eq]
        forEach_push_takeWhile [OF belief_of_member_eq] items members)
qed

text \<open>
  Claim C9: the code departs from it at a \<^verbatim>\<open>null\<close> element. The input below parses as a
  JSON array of three elements. The loop pushes the entry of the first element; reading
  \<^verbatim>\<open>ubp_id\<close> of \<^verbatim>\<open>null\<close> then throws inside the \<^verbatim>\<open>try\<close> block, the empty \<^verbatim>\<open>catch\<close>
  swallows the exception, and the list built so far is returned: one entry, and the element
  \<^verbatim>\<open>{"id":"b"}\<close> after the \<^verbatim>\<open>null\<close> is lost, although the input parsed. Elements that are
  no objects either, a number or a string, do become entries with the two literals, and
  the elements after them are kept.
\<close>

theorem parsedBeliefs_stops_at_null:
  \<open>JSON_parse ''[{"id":"a"},null,{"id":"b"}]''
     = Inr (JArr [JObj [(''id'', JStr ''a'')], JNull, JObj [(''id'', JStr ''b'')]])
   \<and> parsedBeliefs ''[{"id":"a"},null,{"id":"b"}]''
     = [\<lparr>belief_id = JStr ''a'', belief_description = JStr ''No Description'',
         certainty = None\<rparr>]
   \<and> parsedBeliefs ''[{"id":"a"},5,"s",{"id":"b"}]''
     = [\<lparr>belief_id = JStr ''a'', belief_description = JStr ''No Description'',
         certainty = None\<rparr>,
        \<lparr>belief_id = JStr ''Unknown'', belief_description = JStr ''No Description'',
         certainty = None\<rparr>,
        \<lparr>belief_id = JStr ''Unknown'', belief_description = JStr ''No Description'',
         certainty = None\<rparr>,
        \<lparr>belief_id = JStr ''b'', belief_description = JStr ''No Description'',
         certainty = None\<rparr>]
   \<and> parsedBeliefs ''{"k":{"name":"n"},"l":null,"m":{"name":"o"}}''
     = [\<lparr>belief_id = JStr ''k'', belief_description = JStr ''n'', certainty = None\<rparr>]\<close>
  by code_simp

end
